theory Spec2Isabelle
  imports Complex_Main "HOL-Library.Multiset" "HOL-Library.AList"
begin

section \<open>Python values, errors and string helpers\<close>

text \<open>
  The repository is Python.  A raised exception is a value of \<open>py_error\<close>; a function
  that can raise returns \<open>py_error + 'a\<close> with \<open>Inl\<close> for the exception.
  \<open>NotModelled\<close> marks inputs for which the embedding gives no account of the run
  (a column type other than \<open>int\<close> or \<open>str\<close>, a table cell that is not a number where
  the analysis computes with it, a table with a count beyond 64 bits); no theorem below
  relies on it.
\<close>

datatype py_error =
    ValueError | IndexError | KeyError | TypeError | AttributeError
  | UnboundLocalError | NotModelled

text \<open>A cell of a parsed record: the result of casting a column with \<open>int\<close> or \<open>str\<close>;
  \<open>NoneV\<close> is the default of \<open>dict.get\<close> in the parser collaborator.\<close>

datatype pyval = IntV int | StrV string | NoneV

text \<open>A Python string is modelled as the list of its code points, each below 256
  (the Latin-1 range); a \<open>char\<close> is one code point.  Text with other characters is outside
  the model.\<close>

text \<open>\<open>str.strip()\<close>: removes leading and trailing whitespace, the code points for
  which \<open>str.isspace()\<close> holds.\<close>

definition is_space :: "char \<Rightarrow> bool" where
  "is_space c = (c \<in> set [CHR '' '', CHR 0x09, CHR 0x0A, CHR 0x0B, CHR 0x0C, CHR 0x0D,
                             CHR 0x1C, CHR 0x1D, CHR 0x1E, CHR 0x1F, CHR 0x85, CHR 0xA0])"

definition strip :: "string \<Rightarrow> string" where
  "strip s = rev (dropWhile is_space (rev (dropWhile is_space s)))"

text \<open>\<open>s.split(sep)\<close> for a non-empty separator: left to right, non-overlapping.
  The accumulator holds the current field reversed.\<close>

fun split_acc :: "string \<Rightarrow> string \<Rightarrow> nat \<Rightarrow> string \<Rightarrow> string list" where
  "split_acc sep acc 0 s = [rev acc @ s]"
| "split_acc sep acc (Suc n) [] = [rev acc]"
| "split_acc sep acc (Suc n) (c # cs) =
     (if take (length sep) (c # cs) = sep
      then rev acc # split_acc sep [] n (drop (length sep) (c # cs))
      else split_acc sep (c # acc) n cs)"

definition split :: "string \<Rightarrow> string \<Rightarrow> py_error + string list" where
  "split s sep = (if sep = [] then Inl ValueError else Inr (split_acc sep [] (length s) s))"

text \<open>\<open>int(s)\<close> on a string: surrounding whitespace, an optional sign, then decimal
  digits, where single underscores may stand between digits.\<close>

definition is_digit :: "char \<Rightarrow> bool" where
  "is_digit c = (c \<in> set ''0123456789'')"

definition digit_val :: "char \<Rightarrow> nat" where
  "digit_val c = of_char c - 48"

definition nat_of_digits :: "string \<Rightarrow> nat" where
  "nat_of_digits ds = foldl (\<lambda>a c. 10 * a + digit_val c) 0 ds"

fun digits_ok :: "string \<Rightarrow> bool" where
  "digits_ok [] = False"
| "digits_ok [c] = is_digit c"
| "digits_ok (c # d # cs) =
     (is_digit c \<and> (if d = CHR ''_'' then digits_ok cs else digits_ok (d # cs)))"

definition digits_value :: "string \<Rightarrow> nat" where
  "digits_value ds = nat_of_digits (filter (\<lambda>c. c \<noteq> CHR ''_'') ds)"

definition py_int :: "string \<Rightarrow> py_error + int" where
  "py_int s =
     (case strip s of
        [] \<Rightarrow> Inl ValueError
      | c # cs \<Rightarrow>
          if c = CHR ''-'' then
            (if digits_ok cs then Inr (- int (digits_value cs)) else Inl ValueError)
          else if c = CHR ''+'' then
            (if digits_ok cs then Inr (int (digits_value cs)) else Inl ValueError)
          else if digits_ok (c # cs) then Inr (int (digits_value (c # cs)))
          else Inl ValueError)"

text \<open>\<open>str(i)\<close> of an integer, used by the f-string that builds the composite
  sentence id.\<close>

fun digits_of_nat :: "nat \<Rightarrow> nat \<Rightarrow> string" where
  "digits_of_nat 0 n = []"
| "digits_of_nat (Suc fuel) n =
     (if n < 10 then [char_of (48 + n)]
      else digits_of_nat fuel (n div 10) @ [char_of (48 + n mod 10)])"

definition str_of_int :: "int \<Rightarrow> string" where
  "str_of_int i =
     (if i < 0 then CHR ''-'' # digits_of_nat (Suc (nat (- i))) (nat (- i))
      else digits_of_nat (Suc (nat i)) (nat i))"

definition py_str :: "pyval \<Rightarrow> string" where
  "py_str v = (case v of IntV i \<Rightarrow> str_of_int i | StrV s \<Rightarrow> s | NoneV \<Rightarrow> ''None'')"

section \<open>The line segmenter (\<open>Corpus.segment_line\<close>, identical in both readers)\<close>

text \<open>A parsed line is a Python dict from column label to value: an association list
  in insertion order, a later duplicate label overwriting the earlier value in place.\<close>

type_synonym tokrec = "(string \<times> pyval) list"

text \<open>\<open>pydoc.locate(typ or 'str')(field)\<close>.  Only the casts \<open>int\<close> and \<open>str\<close> are
  modelled.\<close>

definition typecast :: "string \<Rightarrow> string \<Rightarrow> py_error + pyval" where
  "typecast typ field =
     (if typ = ''int'' then (case py_int field of Inl e \<Rightarrow> Inl e | Inr i \<Rightarrow> Inr (IntV i))
      else if typ = ''str'' \<or> typ = [] then Inr (StrV field)
      else Inl NotModelled)"

text \<open>The loop body of \<open>segment_line\<close> for the \<open>i\<close>-th item of \<open>fmt\<close>:
  \<open>label, typ = item.split(':')\<close> needs exactly two parts; \<open>row[i]\<close> raises
  \<open>IndexError\<close> when the line has too few fields.\<close>

fun segment_items :: "string list \<Rightarrow> nat \<Rightarrow> string list \<Rightarrow> tokrec \<Rightarrow> py_error + tokrec" where
  "segment_items row i [] doc = Inr doc"
| "segment_items row i (item # items) doc =
     (case split item '':'' of
        Inl e \<Rightarrow> Inl e
      | Inr [label, typ] \<Rightarrow>
          if i < length row then
            (case typecast typ (row ! i) of
               Inl e \<Rightarrow> Inl e
             | Inr v \<Rightarrow> segment_items row (Suc i) items (AList.update label v doc))
          else Inl IndexError
      | Inr _ \<Rightarrow> Inl ValueError)"

definition segment_line :: "string \<Rightarrow> string \<Rightarrow> string list \<Rightarrow> py_error + tokrec" where
  "segment_line line sep fmt =
     (case split (strip line) sep of
        Inl e \<Rightarrow> Inl e
      | Inr row \<Rightarrow> segment_items row 0 fmt [])"

text \<open>\<open>parse['sentence_id'] = f"{fileinput.filename()}_{parse['sentence_id']}"\<close>:
  a \<open>KeyError\<close> when the schema has no column of that name.\<close>

definition qualify :: "string \<Rightarrow> tokrec \<Rightarrow> py_error + tokrec" where
  "qualify fname parse =
     (case map_of parse ''sentence_id'' of
        None \<Rightarrow> Inl KeyError
      | Some v \<Rightarrow> Inr (AList.update ''sentence_id'' (StrV (fname @ ''_'' @ py_str v)) parse))"

definition sentence_id :: "tokrec \<Rightarrow> pyval" where
  "sentence_id parse = (case map_of parse ''sentence_id'' of Some v \<Rightarrow> v | None \<Rightarrow> NoneV)"

section \<open>Sentences and the sentence digester\<close>

text \<open>
  Modelled from the spec: the parser collaborator (\<open>stanza\<close>'s \<open>Document\<close>), which is
  not code of this repository.
  Following the interface the specification gives for it, it turns the buffered records
  of one sentence into one word per record, exposing the word text, the category tag and
  the 1-based head index; a column the schema does not provide reads as \<open>None\<close>.
\<close>

record pword =
  w_text :: pyval
  w_upos :: pyval
  w_head :: pyval

type_synonym sentence = "pword list"

definition get_field :: "tokrec \<Rightarrow> string \<Rightarrow> pyval" where
  "get_field r k = (case map_of r k of Some v \<Rightarrow> v | None \<Rightarrow> NoneV)"

definition Document_sentence :: "tokrec list \<Rightarrow> sentence" where
  "Document_sentence recs =
     map (\<lambda>r. \<lparr>w_text = get_field r ''text'', w_upos = get_field r ''upos'',
                w_head = get_field r ''head''\<rparr>) recs"

text \<open>\<open>Word(w.text, w.upos)\<close>: the key of the token table; an edge is (child, parent).\<close>

type_synonym wordkey = "pyval \<times> pyval"
type_synonym edge = "wordkey \<times> wordkey"

definition Word :: "pword \<Rightarrow> wordkey" where
  "Word w = (w_text w, w_upos w)"

text \<open>Subscription \<open>xs[i]\<close> of a Python list: an index from \<open>-len(xs)\<close> to \<open>-1\<close>
  addresses the list from its end.\<close>

definition py_index :: "'a list \<Rightarrow> int \<Rightarrow> py_error + 'a" where
  "py_index xs i =
     (if 0 \<le> i \<and> i < int (length xs) then Inr (xs ! nat i)
      else if i < 0 \<and> - int (length xs) \<le> i then Inr (xs ! nat (int (length xs) + i))
      else Inl IndexError)"

text \<open>\<open>Corpus._extract_edges_from_sentence\<close>: the loop over \<open>sentence.words\<close>, with
  the edges collected so far.  \<open>w.head - 1\<close> on a head that is not an integer is a
  \<open>TypeError\<close>.\<close>

fun extract_edges_loop :: "sentence \<Rightarrow> pword list \<Rightarrow> edge list \<Rightarrow> py_error + edge list" where
  "extract_edges_loop sent [] edges = Inr edges"
| "extract_edges_loop sent (w # ws) edges =
     (if w_head w = IntV 0 then extract_edges_loop sent ws edges
      else case w_head w of
             IntV h \<Rightarrow>
               (case py_index sent (h - 1) of
                  Inl e \<Rightarrow> Inl e
                | Inr p \<Rightarrow> extract_edges_loop sent ws (edges @ [(Word w, Word p)]))
           | _ \<Rightarrow> Inl TypeError)"

definition extract_edges_from_sentence :: "sentence \<Rightarrow> py_error + edge list" where
  "extract_edges_from_sentence sent = extract_edges_loop sent sent []"

text \<open>A \<open>Counter\<close> is a finite multiset of keys: \<open>Counter(xs)\<close> is \<open>mset xs\<close>,
  \<open>c[k]\<close> is \<open>count c k\<close>, and \<open>c.update(d)\<close> adds the counts key by key, which is
  multiset union \<open>c + d\<close>.  Python compares two counters as mappings, regardless of the
  order in which keys were inserted.\<close>

definition digest_sentence :: "sentence \<Rightarrow> py_error + (wordkey multiset \<times> edge multiset)" where
  "digest_sentence sent =
     (case extract_edges_from_sentence sent of
        Inl e \<Rightarrow> Inl e
      | Inr es \<Rightarrow> Inr (mset (map Word sent), mset es))"

section \<open>The checkpointed reader (\<open>src/src/corpus.py\<close>)\<close>

text \<open>The sentence limit: \<open>self._n_sentences = n_sentences or float('inf')\<close>.\<close>

datatype limit = Finite int | Infinite

definition limit_or_inf :: "limit option \<Rightarrow> limit" where
  "limit_or_inf arg =
     (case arg of None \<Rightarrow> Infinite | Some (Finite k) \<Rightarrow> (if k = 0 then Infinite else Finite k)
      | Some Infinite \<Rightarrow> Infinite)"

text \<open>\<open>x >= n_sentences\<close> for a count \<open>x\<close>.\<close>

definition reaches :: "nat \<Rightarrow> limit \<Rightarrow> bool" where
  "reaches x n = (case n of Finite k \<Rightarrow> k \<le> int x | Infinite \<Rightarrow> False)"

text \<open>The attributes of a \<open>Corpus\<close> that \<open>to_cache\<close> persists and \<open>load_cache\<close>
  restores (\<open>_attrs_to_cache\<close>); together they are the mutable state of the reader.\<close>

record snapshot =
  sentences_seen :: nat
  lines_read :: nat
  current_file :: "string option"
  pair_stats :: "edge multiset"
  token_stats :: "wordkey multiset"
  files :: "string list"
  total :: "limit option"
  n_sentences :: limit

text \<open>\<open>Corpus.digest_sentencebatch\<close>: the digests of all sentences of the batch are
  computed first (an exception in any of them leaves the tables untouched), then merged
  into the aggregate tables one after the other.\<close>

fun digest_all :: "sentence list \<Rightarrow> py_error + (wordkey multiset \<times> edge multiset) list" where
  "digest_all [] = Inr []"
| "digest_all (s # ss) =
     (case digest_sentence s of
        Inl e \<Rightarrow> Inl e
      | Inr d \<Rightarrow> (case digest_all ss of Inl e \<Rightarrow> Inl e | Inr ds \<Rightarrow> Inr (d # ds)))"

definition merge_stat :: "snapshot \<Rightarrow> wordkey multiset \<times> edge multiset \<Rightarrow> snapshot" where
  "merge_stat st d =
     st\<lparr>token_stats := token_stats st + fst d, pair_stats := pair_stats st + snd d\<rparr>"

definition digest_sentencebatch :: "snapshot \<Rightarrow> sentence list \<Rightarrow> py_error + snapshot" where
  "digest_sentencebatch st sb =
     (case digest_all sb of
        Inl e \<Rightarrow> Inl e
      | Inr stats \<Rightarrow> Inr (foldl merge_stat st stats))"

text \<open>Digesting a sequence of batches, one call of \<open>digest_sentencebatch\<close> per batch,
  stopping at the first exception as the reader does.\<close>

fun digest_batches :: "snapshot \<Rightarrow> sentence list list \<Rightarrow> py_error + snapshot" where
  "digest_batches st [] = Inr st"
| "digest_batches st (b # bs) =
     (case digest_sentencebatch st b of
        Inl e \<Rightarrow> Inl e
      | Inr st' \<Rightarrow> digest_batches st' bs)"


text \<open>The outcome of one call of \<open>read\<close>: the state of the object when the call
  ended, the exception that ended it (if any), every snapshot that \<open>to_cache\<close>
  committed during the call, and every sentence appended to \<open>sentence_batch\<close>, in order.\<close>

record run =
  final :: snapshot
  outcome :: "py_error option"
  commits :: "snapshot list"
  assembled :: "sentence list"

definition raised :: "py_error \<Rightarrow> snapshot \<Rightarrow> run" where
  "raised e st = \<lparr>final = st, outcome = Some e, commits = [], assembled = []\<rparr>"

definition returned :: "snapshot \<Rightarrow> run" where
  "returned st = \<lparr>final = st, outcome = None, commits = [], assembled = []\<rparr>"

definition to_cache :: "snapshot \<Rightarrow> run \<Rightarrow> run" where
  "to_cache st r = r\<lparr>commits := st # commits r\<rparr>"

definition emit :: "sentence \<Rightarrow> run \<Rightarrow> run" where
  "emit sent r = r\<lparr>assembled := sent # assembled r\<rparr>"

text \<open>\<open>sep.join(xs)\<close> and the sentinel line of the checkpointed reader,
  \<open>f'{"__EOF__"}{sep}' + sep.join(map(str, range(6 + 10)))\<close>.\<close>

fun join :: "string \<Rightarrow> string list \<Rightarrow> string" where
  "join sep [] = []"
| "join sep [x] = x"
| "join sep (x # y # ys) = x @ sep @ join sep (y # ys)"

definition dummy_line :: "string \<Rightarrow> string" where
  "dummy_line sep =
     ''__EOF__'' @ sep @ join sep (map (\<lambda>i. str_of_int (int i)) [0..<16])"

text \<open>\<open>f.peek(dummy_line())\<close> together with \<open>fileinput.filename()\<close> read after it:
  the next line and its file, or the sentinel and the last file of the input.\<close>

definition peek :: "string \<Rightarrow> string \<Rightarrow> (string \<times> string) list \<Rightarrow> string \<times> string" where
  "peek eofn sep rest = (case rest of [] \<Rightarrow> (eofn, dummy_line sep) | fl # _ \<Rightarrow> fl)"

text \<open>The body of \<open>for line in f\<close> in \<open>Corpus.read\<close>.  The arguments are the schema,
  the separator, the batch size, the name of the last input file, the lines still to
  come (each with the file it is in), \<open>lines_to_skip\<close>, \<open>this_sentence\<close>,
  \<open>sentence_batch\<close> and the state of the object.\<close>

fun read_loop ::
  "string list \<Rightarrow> string \<Rightarrow> int \<Rightarrow> string \<Rightarrow> (string \<times> string) list \<Rightarrow> nat \<Rightarrow>
     tokrec list \<Rightarrow> sentence list \<Rightarrow> snapshot \<Rightarrow> run" where
  "read_loop fmt sep bsz eofn [] skip this batch st = returned st"
| "read_loop fmt sep bsz eofn (fl # rest) skip this batch st0 =
     (if skip > 0 then read_loop fmt sep bsz eofn rest (skip - 1) this batch st0
      else
        let st = st0\<lparr>current_file := Some (fst fl)\<rparr> in
        case segment_line (snd fl) sep fmt of
          Inl e \<Rightarrow> raised e st
        | Inr parse0 \<Rightarrow>
        (case qualify (fst fl) parse0 of
          Inl e \<Rightarrow> raised e st
        | Inr parse \<Rightarrow>
        (case segment_line (snd (peek eofn sep rest)) sep fmt of
          Inl e \<Rightarrow> raised e st
        | Inr next0 \<Rightarrow>
        (case qualify (fst (peek eofn sep rest)) next0 of
          Inl e \<Rightarrow> raised e st
        | Inr next_parse \<Rightarrow>
            if sentence_id next_parse \<noteq> sentence_id parse then
              emit (Document_sentence (this @ [parse]))
                (if bsz \<le> int (length batch + 1)
                    \<or> reaches (sentences_seen st + (length batch + 1)) (n_sentences st)
                 then
                   (case digest_sentencebatch st (batch @ [Document_sentence (this @ [parse])]) of
                      Inl e \<Rightarrow> raised e st
                    | Inr st2 \<Rightarrow>
                        let st3 = st2\<lparr>lines_read := lines_read st2 +
                                         sum_list (map length (batch @ [Document_sentence (this @ [parse])])),
                                       sentences_seen := sentences_seen st2 + (length batch + 1)\<rparr>
                        in to_cache st3
                             (if reaches (sentences_seen st3) (n_sentences st3)
                              then to_cache st3 (returned st3)
                              else read_loop fmt sep bsz eofn rest 0 [] [] st3))
                 else if reaches (sentences_seen st) (n_sentences st)
                   then to_cache st (returned st)
                   else read_loop fmt sep bsz eofn rest 0 []
                          (batch @ [Document_sentence (this @ [parse])]) st)
            else if reaches (sentences_seen st) (n_sentences st)
              then to_cache st (returned st)
              else read_loop fmt sep bsz eofn rest 0 (this @ [parse]) batch st))))"

text \<open>The input of a run: the files of \<open>self._files\<close> in order, each with its lines.
  \<open>fileinput\<close> chains them into one stream of lines.\<close>

type_synonym corpus_input = "(string \<times> string list) list"

definition all_lines :: "corpus_input \<Rightarrow> (string \<times> string) list" where
  "all_lines inp = concat (map (\<lambda>fl. map (Pair (fst fl)) (snd fl)) inp)"

definition eof_name :: "corpus_input \<Rightarrow> string" where
  "eof_name inp = (case inp of [] \<Rightarrow> [] | _ \<Rightarrow> fst (last inp))"

text \<open>\<open>Corpus.read\<close>: fixes \<open>_total\<close> on the first call, resets \<open>_current_file\<close>, and
  runs the loop with \<open>lines_to_skip = self._lines_read\<close>.\<close>

definition read :: "string list \<Rightarrow> string \<Rightarrow> int \<Rightarrow> corpus_input \<Rightarrow> snapshot \<Rightarrow> run" where
  "read fmt sep bsz inp st =
     (let st1 = (if total st = None
                 then st\<lparr>total := Some (case n_sentences st of
                                            Infinite \<Rightarrow> Finite (int (length (all_lines inp)))
                                          | Finite k \<Rightarrow> Finite k)\<rparr>
                 else st)
      in read_loop fmt sep bsz (eof_name inp) (all_lines inp) (lines_read st1) [] []
           (st1\<lparr>current_file := None\<rparr>))"

text \<open>\<open>Corpus.__init__\<close> of the checkpointed reader.  \<open>fs\<close> is the sorted list of input
  files (resolving it is the work of a helper outside the source files at hand);
  \<open>cache\<close> is what the checkpoint store holds under the cache tag: nothing, or the
  snapshot of the last commit.  \<open>load_cache\<close> overwrites every cached attribute, then
  the sentence limit is taken from the argument.  The schema \<open>fmt\<close> is stored as it is.\<close>

definition fresh :: "string list \<Rightarrow> snapshot" where
  "fresh fs = \<lparr>sentences_seen = 0, lines_read = 0, current_file = None, pair_stats = {#},
               token_stats = {#}, files = fs, total = None, n_sentences = Infinite\<rparr>"

definition load_cache :: "snapshot option \<Rightarrow> snapshot \<Rightarrow> snapshot" where
  "load_cache cache st = (case cache of None \<Rightarrow> st | Some c \<Rightarrow> c)"

definition Corpus_init ::
  "string list \<Rightarrow> snapshot option \<Rightarrow> limit option \<Rightarrow> string list \<Rightarrow> py_error + snapshot" where
  "Corpus_init fs cache n fmt =
     Inr ((load_cache cache (fresh fs))\<lparr>n_sentences := limit_or_inf n\<rparr>)"


section \<open>The first reader (\<open>src/corpus.py\<close>)\<close>

text \<open>\<open>sub in s\<close> on strings.\<close>

fun contains :: "string \<Rightarrow> string \<Rightarrow> bool" where
  "contains sub [] = (sub = [])"
| "contains sub (c # cs) = (take (length sub) (c # cs) = sub \<or> contains sub cs)"

text \<open>\<open>Corpus.__init__\<close> of \<open>src/corpus.py\<close>, up to the point where the file list is
  resolved: the \<open>for ... else\<close> over the schema, then the check of \<open>parsed\<close>.\<close>

record config0 =
  c_fmt :: "string list"
  c_sep :: string
  c_lower :: bool
  c_n_sentences :: limit

definition Corpus0_init ::
  "limit option \<Rightarrow> string list \<Rightarrow> string \<Rightarrow> bool \<Rightarrow> bool \<Rightarrow> py_error + config0" where
  "Corpus0_init n fmt sep lowercase parsed =
     (if \<not> list_ex (contains ''sentence_id:'') fmt then Inl ValueError
      else if \<not> parsed then Inl ValueError
      else Inr \<lparr>c_fmt = fmt, c_sep = sep, c_lower = lowercase, c_n_sentences = limit_or_inf n\<rparr>)"

text \<open>\<open>str.lower()\<close>: the capital letters \<open>A\<close> to \<open>Z\<close> and those of the Latin-1 range
  (code points 192 to 222 except the multiplication sign 215) move up by 32; on a value
  that is not a string the attribute lookup fails.\<close>

definition is_upper :: "nat \<Rightarrow> bool" where
  "is_upper k = ((65 \<le> k \<and> k \<le> 90) \<or> (192 \<le> k \<and> k \<le> 222 \<and> k \<noteq> 215))"

definition lower_char :: "char \<Rightarrow> char" where
  "lower_char c = (if is_upper (of_char c) then char_of (of_char c + (32::nat)) else c)"

definition lower :: "pyval \<Rightarrow> py_error + pyval" where
  "lower v = (case v of StrV s \<Rightarrow> Inr (StrV (map lower_char s)) | _ \<Rightarrow> Inl AttributeError)"

text \<open>The state of the first reader: \<open>_upos_token_stats\<close> (category, then token, to
  count; a counter of pairs) and \<open>_sentences_seen\<close>; and the outcome of one run of the
  generator \<open>read\<close> consumed to its end: the sentences yielded, the exception that ended
  it (if any) and the state then.\<close>

record run0 =
  yielded :: "sentence list"
  outcome0 :: "py_error option"
  upos_token_stats :: "(pyval \<times> pyval) multiset"
  sentences_seen0 :: nat

text \<open>\<open>for w in sent.words\<close>: lowercases the word in place when asked to and counts it.
  Returns the words as they are after the loop and the table, or the exception with the
  table as it was when it was raised.\<close>

fun count_words ::
  "bool \<Rightarrow> pword list \<Rightarrow> (pyval \<times> pyval) multiset \<Rightarrow>
     py_error \<times> (pyval \<times> pyval) multiset + pword list \<times> (pyval \<times> pyval) multiset" where
  "count_words lw [] stats = Inr ([], stats)"
| "count_words lw (w # ws) stats =
     (case (if lw then lower (w_text w) else Inr (w_text w)) of
        Inl e \<Rightarrow> Inl (e, stats)
      | Inr t \<Rightarrow>
          (case count_words lw ws (add_mset (w_upos w, t) stats) of
             Inl es \<Rightarrow> Inl es
           | Inr (ws', stats') \<Rightarrow> Inr (w\<lparr>w_text := t\<rparr> # ws', stats')))"

text \<open>The sentinel of the first reader, built from the composite id of the current
  record: \<open>f'{parse["sentence_id"] + "_EOF"}{sep}' + sep.join(map(str, range(6 + 10)))\<close>.
  The composite id is a string; nothing else can reach this point.\<close>

definition dummy_line0 :: "tokrec \<Rightarrow> string \<Rightarrow> py_error + string" where
  "dummy_line0 parse sep =
     (case sentence_id parse of
        StrV c \<Rightarrow> Inr (c @ ''_EOF'' @ sep @ join sep (map (\<lambda>i. str_of_int (int i)) [0..<16]))
      | _ \<Rightarrow> Inl TypeError)"

definition stopped0 :: "py_error option \<Rightarrow> (pyval \<times> pyval) multiset \<Rightarrow> nat \<Rightarrow> run0" where
  "stopped0 e stats seen =
     \<lparr>yielded = [], outcome0 = e, upos_token_stats = stats, sentences_seen0 = seen\<rparr>"

definition yield :: "sentence \<Rightarrow> run0 \<Rightarrow> run0" where
  "yield sent r = r\<lparr>yielded := sent # yielded r\<rparr>"

text \<open>The body of \<open>for line in f\<close> in \<open>read\<close> of \<open>src/corpus.py\<close> (with the defaults
  \<open>store=False\<close>, \<open>return_sentences=True\<close>).  A blank current line is skipped by
  \<open>continue\<close>; the lookahead \<open>f.peek(dummy_line)\<close> is the raw next line.\<close>

fun read0_loop ::
  "config0 \<Rightarrow> string \<Rightarrow> (string \<times> string) list \<Rightarrow> tokrec list \<Rightarrow>
     (pyval \<times> pyval) multiset \<Rightarrow> nat \<Rightarrow> run0" where
  "read0_loop cfg eofn [] this stats seen = stopped0 None stats seen"
| "read0_loop cfg eofn (fl # rest) this stats seen =
     (if strip (snd fl) = [] then read0_loop cfg eofn rest this stats seen
      else
        case segment_line (snd fl) (c_sep cfg) (c_fmt cfg) of
          Inl e \<Rightarrow> stopped0 (Some e) stats seen
        | Inr parse0 \<Rightarrow>
        (case qualify (fst fl) parse0 of
          Inl e \<Rightarrow> stopped0 (Some e) stats seen
        | Inr parse \<Rightarrow>
        (case dummy_line0 parse (c_sep cfg) of
          Inl e \<Rightarrow> stopped0 (Some e) stats seen
        | Inr dummy \<Rightarrow>
        (case segment_line (case rest of [] \<Rightarrow> dummy | nx # _ \<Rightarrow> snd nx) (c_sep cfg) (c_fmt cfg) of
          Inl e \<Rightarrow> stopped0 (Some e) stats seen
        | Inr next0 \<Rightarrow>
        (case qualify (case rest of [] \<Rightarrow> eofn | nx # _ \<Rightarrow> fst nx) next0 of
          Inl e \<Rightarrow> stopped0 (Some e) stats seen
        | Inr next_parse \<Rightarrow>
            if sentence_id next_parse \<noteq> sentence_id parse then
              (case count_words (c_lower cfg) (Document_sentence (this @ [parse])) stats of
                 Inl es \<Rightarrow> stopped0 (Some (fst es)) (snd es) seen
               | Inr ws \<Rightarrow>
                   yield (fst ws)
                     (if reaches (seen + 1) (c_n_sentences cfg)
                      then stopped0 None (snd ws) (seen + 1)
                      else read0_loop cfg eofn rest [] (snd ws) (seen + 1)))
            else if reaches seen (c_n_sentences cfg)
              then stopped0 None stats seen
              else read0_loop cfg eofn rest (this @ [parse]) stats seen)))))"

text \<open>\<open>read\<close> of \<open>src/corpus.py\<close>: the tables are reset at every call.\<close>

definition read0 :: "config0 \<Rightarrow> corpus_input \<Rightarrow> run0" where
  "read0 cfg inp = read0_loop cfg (eof_name inp) (all_lines inp) [] {#} 0"


section \<open>The composition analysis (\<open>src/composlang/composition.py\<close>)\<close>

subsection \<open>Floating-point results and table cells\<close>

text \<open>
  A floating-point result is modelled by the real number that the operations compute in
  exact arithmetic, or by one of the three special values.  The rounding of each
  operation to a 64-bit float is not modelled: a finite value \<open>Fin x\<close> of the model stands
  for the float that the code computes for \<open>x\<close>, which agrees with \<open>x\<close> up to rounding
  errors, and an equation between finite values is an equation of exact arithmetic.  The
  operations below are the ones the analysis uses, with the special values as IEEE 754
  and \<open>numpy\<close> define them (the sign of a zero is not modelled; the one zero divisor that
  occurs, \<open>log2(1)\<close>, is positive).
\<close>

datatype fnum = Fin real | NaN | PosInf | NegInf

text \<open>The value of \<open>np.log2\<close> on an integer that \<open>numpy\<close> can hold in 64 bits.\<close>

definition log2_value :: "int \<Rightarrow> fnum" where
  "log2_value x = (if x > 0 then Fin (log 2 (real_of_int x)) else if x = 0 then NegInf else NaN)"

text \<open>\<open>np.log2(x)\<close> on a Python integer: \<open>numpy\<close> converts an integer from \<open>-2**63\<close> to
  \<open>2**64 - 1\<close> to a 64-bit integer; a larger one stays a Python object, for which the
  function raises \<open>TypeError\<close>.\<close>

definition np_log2 :: "int \<Rightarrow> py_error + fnum" where
  "np_log2 x =
     (if - 9223372036854775808 \<le> x \<and> x < 18446744073709551616 then Inr (log2_value x)
      else Inl TypeError)"

fun fsub :: "fnum \<Rightarrow> fnum \<Rightarrow> fnum" where
  "fsub (Fin a) (Fin b) = Fin (a - b)"
| "fsub NaN y = NaN"
| "fsub x NaN = NaN"
| "fsub PosInf PosInf = NaN"
| "fsub NegInf NegInf = NaN"
| "fsub PosInf y = PosInf"
| "fsub NegInf y = NegInf"
| "fsub (Fin a) PosInf = NegInf"
| "fsub (Fin a) NegInf = PosInf"

fun fdiv :: "fnum \<Rightarrow> fnum \<Rightarrow> fnum" where
  "fdiv (Fin a) (Fin b) =
     (if b \<noteq> 0 then Fin (a / b) else if a = 0 then NaN else if a > 0 then PosInf else NegInf)"
| "fdiv NaN y = NaN"
| "fdiv x NaN = NaN"
| "fdiv (Fin a) y = Fin 0"
| "fdiv PosInf (Fin b) = (if b < 0 then NegInf else PosInf)"
| "fdiv NegInf (Fin b) = (if b < 0 then PosInf else NegInf)"
| "fdiv x y = NaN"

text \<open>\<open>Series.fillna(0)\<close> on one value.\<close>

definition fillna0 :: "fnum \<Rightarrow> fnum" where
  "fillna0 x = (case x of NaN \<Rightarrow> Fin 0 | _ \<Rightarrow> x)"

text \<open>
  \<open>scipy.stats.entropy(pk)\<close> along one axis, as the library documents it and as the
  analysis calls it, with no \<open>base\<close> argument: \<open>pk\<close> is divided by its sum, and the result
  is the sum of \<open>entr(p)\<close>, where \<open>entr(p)\<close> is \<open>-p * log(p)\<close> for \<open>p > 0\<close>, \<open>0\<close> for
  \<open>p = 0\<close> and \<open>-inf\<close> otherwise; \<open>log\<close> is the natural logarithm.
\<close>

definition is_fin :: "fnum \<Rightarrow> bool" where
  "is_fin x = (case x of Fin _ \<Rightarrow> True | _ \<Rightarrow> False)"

definition fin_val :: "fnum \<Rightarrow> real" where
  "fin_val x = (case x of Fin a \<Rightarrow> a | _ \<Rightarrow> 0)"

definition entropy :: "fnum list \<Rightarrow> fnum" where
  "entropy pk =
     (if \<not> list_all is_fin pk then NaN
      else let xs = map fin_val pk; s = sum_list xs in
        if s = 0 then
          (if list_ex (\<lambda>x. x = 0) xs then NaN else NegInf)
        else if list_ex (\<lambda>x. x / s < 0) xs then NegInf
        else Fin (sum_list (map (\<lambda>x. - (x / s) * ln (x / s)) xs)))"

text \<open>A cell of a \<open>pandas\<close> table, and a table as its columns in order, each a label
  and the list of its cells.\<close>

datatype cell = CStr string | CInt int | CNum fnum | CPair string string

type_synonym dataframe = "(string \<times> cell list) list"

definition has_col :: "dataframe \<Rightarrow> string \<Rightarrow> bool" where
  "has_col df key = (map_of df key \<noteq> None)"

definition set_col :: "dataframe \<Rightarrow> string \<Rightarrow> cell list \<Rightarrow> dataframe" where
  "set_col df key cells = AList.update key cells df"

definition get_col :: "dataframe \<Rightarrow> string \<Rightarrow> cell list" where
  "get_col df key = (case map_of df key of Some cs \<Rightarrow> cs | None \<Rightarrow> [])"

definition nrows :: "dataframe \<Rightarrow> nat" where
  "nrows df = (case df of [] \<Rightarrow> 0 | c # _ \<Rightarrow> length (snd c))"

definition iterrows :: "dataframe \<Rightarrow> cell list list" where
  "iterrows df = map (\<lambda>i. map (\<lambda>c. snd c ! i) df) [0..<nrows df]"

text \<open>\<open>pd.DataFrame(dicts).sort_values('freq', ascending=False, ignore_index=True)\<close>
  for the two shapes of row the analysis builds.  A table built from no rows has no
  column \<open>freq\<close>, and sorting it raises \<open>KeyError\<close>.  \<open>pandas\<close> leaves the order of rows
  of equal frequency open; the model keeps them in their original order.  A column of
  counts is a column of 64-bit integers; a table with a count that does not fit is stored
  by \<open>pandas\<close> in another way and is outside the model.\<close>

definition is_int64 :: "int \<Rightarrow> bool" where
  "is_int64 x = (- 9223372036854775808 \<le> x \<and> x < 9223372036854775808)"

definition token_frame :: "(string \<times> string \<times> int) list \<Rightarrow> py_error + dataframe" where
  "token_frame dicts =
     (if dicts = [] then Inl KeyError
      else if list_ex (\<lambda>r. \<not> is_int64 (snd (snd r))) dicts then Inl NotModelled
      else let rows = sort_key (\<lambda>r. - snd (snd r)) dicts in
        Inr [(''token'', map (\<lambda>r. CStr (fst r)) rows),
             (''upos'', map (\<lambda>r. CStr (fst (snd r))) rows),
             (''freq'', map (\<lambda>r. CInt (snd (snd r))) rows)])"

definition pair_frame :: "((string \<times> string) \<times> int) list \<Rightarrow> py_error + dataframe" where
  "pair_frame items =
     (if items = [] then Inl KeyError
      else if list_ex (\<lambda>r. \<not> is_int64 (snd r)) items then Inl NotModelled
      else let rows = sort_key (\<lambda>r. - snd r) items in
        Inr [(''child'', map (\<lambda>r. CStr (fst (fst r))) rows),
             (''parent'', map (\<lambda>r. CStr (snd (fst r))) rows),
             (''pair'', map (\<lambda>r. CPair (fst (fst r)) (snd (fst r))) rows),
             (''freq'', map (\<lambda>r. CInt (snd r)) rows)])"

subsection \<open>The state of a \<open>CompositionAnalysis\<close> and \<open>_crunch_corpus_stats\<close>\<close>

text \<open>What the analysis reads from the corpus object: the items of its three tables in
  the iteration order of the dicts (keys are pairwise distinct).  A token key is
  (text, category).\<close>

type_synonym tkey = "string \<times> string"

record corpus_stats =
  cs_token_stats :: "(tkey \<times> int) list"
  cs_pair_stats :: "((tkey \<times> tkey) \<times> int) list"
  cs_skip_pair_stats :: "((tkey \<times> tkey) \<times> int) list"

record analysis =
  child_upos :: string
  parent_upos :: string
  a_n_tokens :: int
  a_token_stats :: "(string \<times> int) list"
  child_df :: dataframe
  parent_df :: dataframe
  a_pair_stats :: "((string \<times> string) \<times> int) list"
  pair_df :: dataframe
  a_skip_pair_stats :: "((string \<times> string) \<times> int) list"
  skip_pair_df :: dataframe
  matrix :: "fnum list list option"

text \<open>A dict comprehension \<open>{k: v for ...}\<close>: the items are stored one after the other, a
  key that is already there keeping its place and taking the new value.\<close>

definition dict_of :: "('k \<times> 'v) list \<Rightarrow> ('k \<times> 'v) list" where
  "dict_of items = foldl (\<lambda>d kv. AList.update (fst kv) (snd kv) d) [] items"

definition upos_dicts :: "string \<Rightarrow> (tkey \<times> int) list \<Rightarrow> (string \<times> string \<times> int) list" where
  "upos_dicts upos items =
     map (\<lambda>kv. (fst (fst kv), snd (fst kv), snd kv)) (filter (\<lambda>kv. snd (fst kv) = upos) items)"

definition bare_token_stats :: "string \<Rightarrow> string \<Rightarrow> (tkey \<times> int) list \<Rightarrow> (string \<times> int) list" where
  "bare_token_stats cu pu items =
     dict_of (map (\<lambda>kv. (fst (fst kv), snd kv))
                  (filter (\<lambda>kv. snd (fst kv) = cu \<or> snd (fst kv) = pu) items))"

definition upos_pairs ::
  "string \<Rightarrow> string \<Rightarrow> ((tkey \<times> tkey) \<times> int) list \<Rightarrow> ((string \<times> string) \<times> int) list" where
  "upos_pairs cu pu items =
     dict_of (map (\<lambda>kv. ((fst (fst (fst kv)), fst (snd (fst kv))), snd kv))
                  (filter (\<lambda>kv. snd (fst (fst kv)) = cu \<and> snd (snd (fst kv)) = pu) items))"

definition crunch_corpus_stats :: "string \<Rightarrow> string \<Rightarrow> corpus_stats \<Rightarrow> py_error + analysis" where
  "crunch_corpus_stats cu pu corpus =
     (case token_frame (upos_dicts cu (cs_token_stats corpus)) of
        Inl e \<Rightarrow> Inl e
      | Inr cdf \<Rightarrow>
     (case token_frame (upos_dicts pu (cs_token_stats corpus)) of
        Inl e \<Rightarrow> Inl e
      | Inr pdf \<Rightarrow>
     (case pair_frame (upos_pairs cu pu (cs_pair_stats corpus)) of
        Inl e \<Rightarrow> Inl e
      | Inr prdf \<Rightarrow>
     (case pair_frame (upos_pairs cu pu (cs_skip_pair_stats corpus)) of
        Inl e \<Rightarrow> Inl e
      | Inr sdf \<Rightarrow>
          Inr \<lparr>child_upos = cu, parent_upos = pu,
               a_n_tokens = sum_list (map snd (cs_token_stats corpus)),
               a_token_stats = bare_token_stats cu pu (cs_token_stats corpus),
               child_df = cdf, parent_df = pdf,
               a_pair_stats = upos_pairs cu pu (cs_pair_stats corpus), pair_df = prdf,
               a_skip_pair_stats = upos_pairs cu pu (cs_skip_pair_stats corpus),
               skip_pair_df = sdf, matrix = None\<rparr>))))"


subsection \<open>\<open>generate_adjacency_matrix\<close>\<close>

text \<open>The value stored into the float matrix.\<close>

definition to_float :: "cell \<Rightarrow> py_error + fnum" where
  "to_float c = (case c of CInt i \<Rightarrow> Inr (Fin (real_of_int i)) | CNum x \<Rightarrow> Inr x | _ \<Rightarrow> Inl NotModelled)"

text \<open>\<open>{token: ix for ix, token in enumerate(tokens)}\<close>.\<close>

definition index_of :: "cell list \<Rightarrow> (cell \<times> nat) list" where
  "index_of tokens = dict_of (zip tokens [0..<length tokens])"

text \<open>The loop over the rows of the pair table.  \<open>cix\<close> and \<open>pix\<close> are the two local
  variables: unbound before the first successful lookup, and left as they are when a
  lookup raises \<open>KeyError\<close> (the handler only prints).\<close>

fun adjacency_loop ::
  "(cell \<times> nat) list \<Rightarrow> (cell \<times> nat) list \<Rightarrow> (cell \<times> cell \<times> cell) list \<Rightarrow>
     nat option \<Rightarrow> nat option \<Rightarrow> fnum list list \<Rightarrow> py_error + fnum list list" where
  "adjacency_loop c2i p2i [] cix pix m = Inr m"
| "adjacency_loop c2i p2i (row # rows) cix pix m =
     (let cix' = (case map_of c2i (fst row) of None \<Rightarrow> cix | Some i \<Rightarrow> Some i);
          pix' = (case map_of c2i (fst row) of None \<Rightarrow> pix
                  | Some i \<Rightarrow> (case map_of p2i (fst (snd row)) of None \<Rightarrow> pix | Some j \<Rightarrow> Some j))
      in case cix' of
           None \<Rightarrow> Inl UnboundLocalError
         | Some i \<Rightarrow>
        (case pix' of
           None \<Rightarrow> Inl UnboundLocalError
         | Some j \<Rightarrow>
        (case to_float (snd (snd row)) of
           Inl e \<Rightarrow> Inl e
         | Inr x \<Rightarrow> adjacency_loop c2i p2i rows cix' pix' (m[i := (m ! i)[j := x]]))))"

text \<open>\<open>row[['child', 'parent', stat]]\<close> for every row of the table.\<close>

definition stat_rows :: "dataframe \<Rightarrow> string \<Rightarrow> py_error + (cell \<times> cell \<times> cell) list" where
  "stat_rows df stat =
     (if nrows df = 0 then Inr []
      else if has_col df ''child'' \<and> has_col df ''parent'' \<and> has_col df stat
        then Inr (zip (get_col df ''child'') (zip (get_col df ''parent'') (get_col df stat)))
        else Inl KeyError)"

definition generate_adjacency_matrix ::
  "bool \<Rightarrow> string \<Rightarrow> analysis \<Rightarrow> py_error + analysis \<times> fnum list list" where
  "generate_adjacency_matrix skip stat a =
     (case matrix a of
        Some m \<Rightarrow> Inr (a, m)
      | None \<Rightarrow>
          if has_col (child_df a) ''token'' \<and> has_col (parent_df a) ''token'' then
            let child_tokens = get_col (child_df a) ''token'';
                parent_tokens = get_col (parent_df a) ''token''
            in case stat_rows (if skip then skip_pair_df a else pair_df a) stat of
                 Inl e \<Rightarrow> Inl e
               | Inr rows \<Rightarrow>
              (case adjacency_loop (index_of child_tokens) (index_of parent_tokens) rows None None
                      (replicate (length child_tokens) (replicate (length parent_tokens) (Fin 0))) of
                 Inl e \<Rightarrow> Inl e
               | Inr m \<Rightarrow> Inr (a\<lparr>matrix := Some m\<rparr>, m))
          else Inl KeyError)"

subsection \<open>\<open>compute_combinations\<close>\<close>

text \<open>The four \<open>defaultdict(int)\<close> of one pass, as functions with default \<open>0\<close>.\<close>

record combo_counts =
  child_to_parent :: "string \<Rightarrow> int"
  collapsed_child_to_parent :: "string \<Rightarrow> int"
  parent_to_child :: "string \<Rightarrow> int"
  collapsed_parent_to_child :: "string \<Rightarrow> int"

definition count_step :: "combo_counts \<Rightarrow> (string \<times> string) \<times> int \<Rightarrow> combo_counts" where
  "count_step d item =
     (let w = fst (fst item); p = snd (fst item); ct = snd item in
      \<lparr>child_to_parent = (child_to_parent d)(w := child_to_parent d w + ct),
       collapsed_child_to_parent = (collapsed_child_to_parent d)(w := collapsed_child_to_parent d w + 1),
       parent_to_child = (parent_to_child d)(p := parent_to_child d p + ct),
       collapsed_parent_to_child = (collapsed_parent_to_child d)(p := collapsed_parent_to_child d p + 1)\<rparr>)"

definition count_pairs :: "((string \<times> string) \<times> int) list \<Rightarrow> combo_counts" where
  "count_pairs items =
     foldl count_step
       \<lparr>child_to_parent = (\<lambda>_. 0), collapsed_child_to_parent = (\<lambda>_. 0),
        parent_to_child = (\<lambda>_. 0), collapsed_parent_to_child = (\<lambda>_. 0)\<rparr> items"

text \<open>\<open>[d[k] for k in df['token']]\<close>.\<close>

definition lookup_tokens :: "(string \<Rightarrow> int) \<Rightarrow> dataframe \<Rightarrow> cell list" where
  "lookup_tokens d df = map (\<lambda>c. case c of CStr k \<Rightarrow> CInt (d k) | _ \<Rightarrow> CInt 0) (get_col df ''token'')"

definition combinations_pass :: "string \<Rightarrow> ((string \<times> string) \<times> int) list \<Rightarrow> analysis \<Rightarrow> analysis" where
  "combinations_pass key stat_dict a =
     (if has_col (child_df a) key \<and> has_col (parent_df a) key then a
      else
        let d = count_pairs stat_dict;
            cdf1 = set_col (child_df a) key (lookup_tokens (child_to_parent d) (child_df a));
            pdf1 = set_col (parent_df a) key (lookup_tokens (parent_to_child d) (parent_df a));
            cdf2 = set_col cdf1 (key @ ''_collapsed'')
                     (lookup_tokens (collapsed_child_to_parent d) cdf1);
            pdf2 = set_col pdf1 (key @ ''_collapsed'')
                     (lookup_tokens (collapsed_parent_to_child d) pdf1)
        in a\<lparr>child_df := cdf2, parent_df := pdf2\<rparr>)"

definition compute_combinations :: "analysis \<Rightarrow> analysis" where
  "compute_combinations a =
     (let a1 = combinations_pass ''combinations'' (a_pair_stats a) a
      in combinations_pass ''skip_combinations'' (a_skip_pair_stats a1) a1)"

subsection \<open>\<open>compute_entropy\<close>\<close>

text \<open>\<open>entropy(matrix, axis=1)\<close> is the entropy of every row, \<open>entropy(matrix, axis=0)\<close>
  of every column.\<close>

definition matrix_columns :: "nat \<Rightarrow> fnum list list \<Rightarrow> fnum list list" where
  "matrix_columns n m = map (\<lambda>j. map (\<lambda>r. r ! j) m) [0..<n]"

text \<open>The normalising denominator: \<open>mask * freq + ~mask * shape\<close> with
  \<open>mask = (freq < shape)\<close>, then \<open>np.log2\<close> of it (a column of 64-bit integers).\<close>

definition norm_denom :: "nat \<Rightarrow> cell \<Rightarrow> int" where
  "norm_denom shape c =
     (case c of CInt f \<Rightarrow> (if f < int shape then f else int shape) | _ \<Rightarrow> int shape)"

definition ceilinged :: "nat \<Rightarrow> cell list \<Rightarrow> cell list \<Rightarrow> cell list" where
  "ceilinged shape ents freqs =
     map (\<lambda>ef. case fst ef of CNum e \<Rightarrow> CNum (fdiv e (log2_value (norm_denom shape (snd ef))))
                | c \<Rightarrow> c)
         (zip ents freqs)"

definition entropy_pass :: "string \<Rightarrow> bool \<Rightarrow> analysis \<Rightarrow> py_error + analysis" where
  "entropy_pass column_name skip a =
     (case generate_adjacency_matrix skip ''freq'' a of
        Inl e \<Rightarrow> Inl e
      | Inr am \<Rightarrow>
          let a1 = fst am; m = snd am;
              shape0 = length m;
              shape1 = (case m of [] \<Rightarrow> 0 | r # _ \<Rightarrow> length r);
              child_ent = map (\<lambda>r. CNum (fillna0 (entropy r))) m;
              parent_ent = map (\<lambda>c. CNum (fillna0 (entropy c))) (matrix_columns shape1 m);
              cdf1 = set_col (child_df a1) column_name child_ent;
              pdf1 = set_col (parent_df a1) column_name parent_ent;
              pdf2 = set_col pdf1 (column_name @ ''_ceilinged'')
                       (ceilinged shape0 parent_ent (get_col pdf1 ''freq''));
              cdf2 = set_col cdf1 (column_name @ ''_ceilinged'')
                       (ceilinged shape1 child_ent (get_col cdf1 ''freq''))
          in Inr (a1\<lparr>child_df := cdf2, parent_df := pdf2\<rparr>))"

text \<open>The loop over \<open>('entropy', False), ('entropy_skip', True)\<close>; a column that is
  already there ends the whole call (\<open>return\<close>).\<close>

definition compute_entropy :: "analysis \<Rightarrow> py_error + analysis" where
  "compute_entropy a =
     (if has_col (child_df a) ''entropy'' \<and> has_col (parent_df a) ''entropy'' then Inr a
      else case entropy_pass ''entropy'' False a of
             Inl e \<Rightarrow> Inl e
           | Inr a1 \<Rightarrow>
               if has_col (child_df a1) ''entropy_skip'' \<and> has_col (parent_df a1) ''entropy_skip''
               then Inr a1
               else entropy_pass ''entropy_skip'' True a1)"

subsection \<open>\<open>compute_pmi\<close>\<close>

text \<open>One row of the loop: \<open>(w, p, (w, p), ct)\<close> unpacks a row of exactly four cells
  whose third is a pair; \<open>w\<close> and \<open>p\<close> are bound last by the pair.  The statements of the
  body run in their order: \<open>np.log2(ct)\<close>, then the lookup of \<open>p\<close> and its logarithm, then
  the lookup of \<open>w\<close> and its logarithm, then \<open>np.log2(self.n_tokens)\<close> inside the last
  expression.  A lookup raises \<open>KeyError\<close> for a token that is not in
  \<open>self.token_stats\<close>.\<close>

definition pmi_row :: "(string \<times> int) list \<Rightarrow> int \<Rightarrow> cell list \<Rightarrow> py_error + cell" where
  "pmi_row tstats n row =
     (case row of
        [c1, c2, CPair w p, c4] \<Rightarrow>
          (case c4 of
             CInt ct \<Rightarrow>
               (case np_log2 ct of
                  Inl e \<Rightarrow> Inl e
                | Inr p_given_w_ct \<Rightarrow>
               (case map_of tstats p of
                  None \<Rightarrow> Inl KeyError
                | Some fp \<Rightarrow>
               (case np_log2 fp of
                  Inl e \<Rightarrow> Inl e
                | Inr p_ct \<Rightarrow>
               (case map_of tstats w of
                  None \<Rightarrow> Inl KeyError
                | Some fw \<Rightarrow>
               (case np_log2 fw of
                  Inl e \<Rightarrow> Inl e
                | Inr w_ct \<Rightarrow>
               (case np_log2 n of
                  Inl e \<Rightarrow> Inl e
                | Inr n_ct \<Rightarrow>
                    Inr (CNum (fsub (fsub p_given_w_ct w_ct) (fsub p_ct n_ct)))))))))
           | _ \<Rightarrow> Inl NotModelled)
      | [c1, c2, c3, c4] \<Rightarrow> Inl TypeError
      | _ \<Rightarrow> Inl ValueError)"

fun pmi_rows :: "(string \<times> int) list \<Rightarrow> int \<Rightarrow> cell list list \<Rightarrow> py_error + cell list" where
  "pmi_rows tstats n [] = Inr []"
| "pmi_rows tstats n (row # rows) =
     (case pmi_row tstats n row of
        Inl e \<Rightarrow> Inl e
      | Inr v \<Rightarrow> (case pmi_rows tstats n rows of Inl e \<Rightarrow> Inl e | Inr vs \<Rightarrow> Inr (v # vs)))"

text \<open>One pass of the loop over \<open>('pmi', self.pair_df), ('skip_pmi', self.skip_pair_df)\<close>.
  The guard looks for the key in the two token tables; the column is written to the
  pair table \<open>stat_df\<close>.\<close>

definition pmi_pass :: "string \<Rightarrow> analysis \<Rightarrow> dataframe \<Rightarrow> py_error + dataframe" where
  "pmi_pass key a stat_df =
     (if has_col (child_df a) key \<and> has_col (parent_df a) key then Inr stat_df
      else case pmi_rows (a_token_stats a) (a_n_tokens a) (iterrows stat_df) of
             Inl e \<Rightarrow> Inl e
           | Inr pmi \<Rightarrow> Inr (set_col stat_df key pmi))"

definition compute_pmi :: "analysis \<Rightarrow> py_error + analysis" where
  "compute_pmi a =
     (case pmi_pass ''pmi'' a (pair_df a) of
        Inl e \<Rightarrow> Inl e
      | Inr df1 \<Rightarrow>
          let a1 = a\<lparr>pair_df := df1\<rparr> in
          (case pmi_pass ''skip_pmi'' a1 (skip_pair_df a1) of
             Inl e \<Rightarrow> Inl e
           | Inr df2 \<Rightarrow> Inr (a1\<lparr>skip_pair_df := df2\<rparr>)))"

subsection \<open>\<open>run_analyses\<close> and \<open>__init__\<close>\<close>

definition run_analyses :: "analysis \<Rightarrow> py_error + analysis" where
  "run_analyses a =
     (case compute_entropy (compute_combinations a) of
        Inl e \<Rightarrow> Inl e
      | Inr a1 \<Rightarrow> compute_pmi a1)"

definition CompositionAnalysis ::
  "corpus_stats \<Rightarrow> string \<Rightarrow> string \<Rightarrow> bool \<Rightarrow> py_error + analysis" where
  "CompositionAnalysis corpus cu pu run =
     (case crunch_corpus_stats cu pu corpus of
        Inl e \<Rightarrow> Inl e
      | Inr a \<Rightarrow> if run then run_analyses a else Inr a)"

section \<open>Auxiliary notions for the statements\<close>

text \<open>What one sentence contributes to the two tables when its digest succeeds, and
  whether it does.\<close>

definition tokens_of :: "sentence \<Rightarrow> wordkey multiset" where
  "tokens_of sent = mset (map Word sent)"

definition edges_of :: "sentence \<Rightarrow> edge multiset" where
  "edges_of sent = (case extract_edges_from_sentence sent of Inl e \<Rightarrow> {#} | Inr es \<Rightarrow> mset es)"

definition digestible :: "sentence \<Rightarrow> bool" where
  "digestible sent = (case extract_edges_from_sentence sent of Inl e \<Rightarrow> False | Inr es \<Rightarrow> True)"

definition add_sentences :: "snapshot \<Rightarrow> sentence multiset \<Rightarrow> snapshot" where
  "add_sentences st M =
     st\<lparr>token_stats := token_stats st + sum_mset (image_mset tokens_of M),
        pair_stats := pair_stats st + sum_mset (image_mset edges_of M)\<rparr>"

subsection \<open>Example inputs\<close>

definition TAB :: string where
  "TAB = [CHR 0x09]"

definition NL :: string where
  "NL = [CHR 0x0A]"

definition mkline :: "string list \<Rightarrow> string" where
  "mkline cols = join TAB cols @ NL"

text \<open>Two small sentences: ``red apple'' (the adjective depends on the noun) and
  ``eat''.\<close>

definition red_apple :: sentence where
  "red_apple = [\<lparr>w_text = StrV ''red'', w_upos = StrV ''ADJ'', w_head = IntV 2\<rparr>,
                \<lparr>w_text = StrV ''apple'', w_upos = StrV ''NOUN'', w_head = IntV 0\<rparr>]"

definition eat :: sentence where
  "eat = [\<lparr>w_text = StrV ''eat'', w_upos = StrV ''VERB'', w_head = IntV 0\<rparr>]"

text \<open>The default schema of both readers, and a corpus file of six token lines whose
  \<open>sentence_id\<close> column reads 1, 1, 1, 2, 2, 3.\<close>

definition default_fmt :: "string list" where
  "default_fmt = [''sentence_id:int'', ''text:str'', ''lemma:str'', ''id:int'', ''head:int'',
                  ''upos:str'', ''deprel:str'']"

definition six_lines :: "string list" where
  "six_lines = [mkline [''1'', ''A'', ''a'', ''1'', ''2'', ''DET'', ''det''],
                mkline [''1'', ''mother'', ''mother'', ''2'', ''0'', ''NOUN'', ''root''],
                mkline [''1'', ''sings'', ''sing'', ''3'', ''2'', ''VERB'', ''acl''],
                mkline [''2'', ''red'', ''red'', ''1'', ''2'', ''ADJ'', ''amod''],
                mkline [''2'', ''apple'', ''apple'', ''2'', ''0'', ''NOUN'', ''root''],
                mkline [''3'', ''eat'', ''eat'', ''1'', ''0'', ''VERB'', ''root'']]"

text \<open>The same six lines with the first column declared and written as a string.\<close>

definition str_fmt :: "string list" where
  "str_fmt = ''sentence_id:str'' # tl default_fmt"

text \<open>A schema of four columns with a string \<open>sentence_id\<close>, and three sentences of one
  token each, without and with an empty line after the first.\<close>

definition fmt4 :: "string list" where
  "fmt4 = [''sentence_id:str'', ''text:str'', ''head:int'', ''upos:str'']"

definition three_lines :: "string list" where
  "three_lines = [mkline [''s1'', ''red'', ''0'', ''ADJ''],
                  mkline [''s2'', ''apple'', ''0'', ''NOUN''],
                  mkline [''s3'', ''eat'', ''0'', ''VERB'']]"

definition lines_with_blank :: "string list" where
  "lines_with_blank = [mkline [''s1'', ''red'', ''0'', ''ADJ''],
                       NL,
                       mkline [''s2'', ''apple'', ''0'', ''NOUN''],
                       mkline [''s3'', ''eat'', ''0'', ''VERB'']]"

text \<open>The state of a newly constructed checkpointed reader over the one file \<open>f\<close>, for a
  given content of the checkpoint store and a given sentence limit; and the
  configuration of a first reader with the given schema.\<close>

definition new_corpus :: "snapshot option \<Rightarrow> limit option \<Rightarrow> string list \<Rightarrow> snapshot" where
  "new_corpus cache n fmt = projr (Corpus_init [''f''] cache n fmt)"

definition new_corpus0 :: "string list \<Rightarrow> config0" where
  "new_corpus0 fmt = projr (Corpus0_init None fmt TAB True True)"

text \<open>A run of the checkpointed reader over \<open>three_lines\<close> with a limit of one sentence
  and batches of one sentence, and the run of a second reader object constructed from
  the snapshot that the first run committed after its first batch.\<close>

definition limited_run :: run where
  "limited_run = read fmt4 TAB 1 [(''f'', three_lines)] (new_corpus None (Some (Finite 1)) fmt4)"

definition resumed_run :: run where
  "resumed_run =
     read fmt4 TAB 1 [(''f'', three_lines)]
       (new_corpus (Some (hd (commits limited_run))) (Some (Finite 1)) fmt4)"

text \<open>Three small corpora for the analysis, with \<open>ADJ\<close> as the child category and
  \<open>NOUN\<close> as the parent category.\<close>

definition red_ADJ :: tkey where
  "red_ADJ = (''red'', ''ADJ'')"

definition apple_NOUN :: tkey where
  "apple_NOUN = (''apple'', ''NOUN'')"

definition pear_NOUN :: tkey where
  "pear_NOUN = (''pear'', ''NOUN'')"

definition eat_VERB :: tkey where
  "eat_VERB = (''eat'', ''VERB'')"

text \<open>One adjective, one noun; the pair is seen once as a direct edge and twice as a
  skip pair.\<close>

definition corpus_skip :: corpus_stats where
  "corpus_skip =
     \<lparr>cs_token_stats = [(red_ADJ, 3), (apple_NOUN, 5)],
      cs_pair_stats = [((red_ADJ, apple_NOUN), 1)],
      cs_skip_pair_stats = [((red_ADJ, apple_NOUN), 2)]\<rparr>"

text \<open>One adjective seen once with each of two nouns.\<close>

definition corpus_uniform :: corpus_stats where
  "corpus_uniform =
     \<lparr>cs_token_stats = [(red_ADJ, 2), (apple_NOUN, 1), (pear_NOUN, 1)],
      cs_pair_stats = [((red_ADJ, apple_NOUN), 1), ((red_ADJ, pear_NOUN), 1)],
      cs_skip_pair_stats = [((red_ADJ, apple_NOUN), 1), ((red_ADJ, pear_NOUN), 1)]\<rparr>"

text \<open>The example of the specification: ``red'' occurs 100 times, ``apple'' 50 times,
  together 10 times, in a corpus of 10000 tokens; the other 9850 tokens are verbs.\<close>

definition corpus_pmi :: corpus_stats where
  "corpus_pmi =
     \<lparr>cs_token_stats = [(red_ADJ, 100), (apple_NOUN, 50), (eat_VERB, 9850)],
      cs_pair_stats = [((red_ADJ, apple_NOUN), 10)],
      cs_skip_pair_stats = [((red_ADJ, apple_NOUN), 10)]\<rparr>"

text \<open>The analysis objects built from these corpora: without and with
  \<open>run_analyses\<close>.\<close>

definition skip_analysis :: analysis where
  "skip_analysis = projr (CompositionAnalysis corpus_skip ''ADJ'' ''NOUN'' False)"

definition skip_analysed :: analysis where
  "skip_analysed = projr (CompositionAnalysis corpus_skip ''ADJ'' ''NOUN'' True)"

definition uniform_analysed :: analysis where
  "uniform_analysed = projr (CompositionAnalysis corpus_uniform ''ADJ'' ''NOUN'' True)"

text \<open>A corpus in which the text ``red'' occurs both as an adjective (100 times) and,
  later in the table, as a noun (7 times); the adjective is seen with the noun ``apple''
  and with the noun ``red''.\<close>

definition red_NOUN :: tkey where
  "red_NOUN = (''red'', ''NOUN'')"

definition corpus_homonym :: corpus_stats where
  "corpus_homonym =
     \<lparr>cs_token_stats = [(red_ADJ, 100), (apple_NOUN, 50), (red_NOUN, 7)],
      cs_pair_stats = [((red_ADJ, apple_NOUN), 10), ((red_ADJ, red_NOUN), 3)],
      cs_skip_pair_stats = [((red_ADJ, red_NOUN), 2)]\<rparr>"

definition homonym_analysis :: analysis where
  "homonym_analysis = projr (CompositionAnalysis corpus_homonym ''ADJ'' ''NOUN'' True)"

text \<open>The pair table of the direct relation or of the skip relation, the column that
  \<open>compute_pmi\<close> adds to it, and the counter it was built from.\<close>

definition pmi_table :: "bool \<Rightarrow> analysis \<Rightarrow> dataframe" where
  "pmi_table skip a = (if skip then skip_pair_df a else pair_df a)"

definition pmi_key :: "bool \<Rightarrow> string" where
  "pmi_key skip = (if skip then ''skip_pmi'' else ''pmi'')"

definition pmi_stats :: "bool \<Rightarrow> analysis \<Rightarrow> ((string \<times> string) \<times> int) list" where
  "pmi_stats skip a = (if skip then a_skip_pair_stats a else a_pair_stats a)"




text \<open>The part of the state that \<open>compute_pmi\<close> reads is left alone by the two
  computations that \<open>run_analyses\<close> runs before it, and neither adds a column \<open>pmi\<close>
  to a token table.\<close>

definition pmi_view :: "analysis \<Rightarrow> (string \<times> int) list \<times> int \<times> dataframe \<times> dataframe \<times>
    ((string \<times> string) \<times> int) list \<times> ((string \<times> string) \<times> int) list \<times> bool \<times> bool" where
  "pmi_view a = (a_token_stats a, a_n_tokens a, pair_df a, skip_pair_df a, a_pair_stats a,
                 a_skip_pair_stats a,
                 has_col (child_df a) ''pmi'', has_col (child_df a) ''skip_pmi'')"

text \<open>The number of lines that the reader has taken from its input and accounted for:
  those of the checkpoint, of the sentence being assembled and of the batch being
  filled.\<close>

definition consumed :: "snapshot \<Rightarrow> tokrec list \<Rightarrow> sentence list \<Rightarrow> nat" where
  "consumed st this batch = lines_read st + length this + sum_list (map length batch)"

text \<open>The attributes that \<open>read\<close> never changes once \<open>_total\<close> is set.\<close>

definition same_setup :: "snapshot \<Rightarrow> snapshot \<Rightarrow> bool" where
  "same_setup s t = (total s = total t \<and> n_sentences s = n_sentences t \<and> files s = files t)"

text \<open>A run over \<open>three_lines\<close> with a limit of two sentences and batches of one
  sentence; its first commit is below the limit.\<close>

definition two_limit_start :: snapshot where
  "two_limit_start = new_corpus None (Some (Finite 2)) fmt4"

definition two_limit_run :: run where
  "two_limit_run = read fmt4 TAB 1 [(''f'', three_lines)] two_limit_start"


section \<open>Properties\<close>

subsection \<open>Merging digests is summation\<close>

lemma digest_sentence_Inr:
  "digest_sentence s = Inr d \<longleftrightarrow> digestible s \<and> d = (tokens_of s, edges_of s)"
  by (auto simp: digest_sentence_def digestible_def tokens_of_def edges_of_def split: sum.splits)

lemma digest_sentence_Inl:
  "digest_sentence s = Inl e \<Longrightarrow> \<not> digestible s"
  by (auto simp: digest_sentence_def digestible_def split: sum.splits)

lemma digest_all_Inr:
  "digest_all sb = Inr ds \<longleftrightarrow>
     (\<forall>s \<in> set sb. digestible s) \<and> ds = map (\<lambda>s. (tokens_of s, edges_of s)) sb"
proof (induction sb arbitrary: ds)
  case Nil
  show ?case by auto
next
  case (Cons s sb)
  show ?case
  proof (cases "digest_sentence s")
    case (Inl e)
    then show ?thesis using digest_sentence_Inl[OF Inl] by simp
  next
    case (Inr d)
    then have d: "digestible s" "d = (tokens_of s, edges_of s)"
      by (simp_all add: digest_sentence_Inr)
    show ?thesis
    proof (cases "digest_all sb")
      case (Inl e)
      then have "\<not> (\<forall>s \<in> set sb. digestible s)" using Cons[of "map (\<lambda>s. (tokens_of s, edges_of s)) sb"] by simp
      with Inl Inr show ?thesis by simp
    next
      case r: (Inr ds')
      then have "(\<forall>s \<in> set sb. digestible s)" "ds' = map (\<lambda>s. (tokens_of s, edges_of s)) sb"
        using Cons[of ds'] by simp_all
      with r Inr d show ?thesis by auto
    qed
  qed
qed

lemma foldl_merge_stat:
  "foldl merge_stat st ds =
     st\<lparr>token_stats := token_stats st + sum_list (map fst ds),
        pair_stats := pair_stats st + sum_list (map snd ds)\<rparr>"
  by (induction ds arbitrary: st) (simp_all add: merge_stat_def add.assoc)


lemma sum_list_tokens:
  "sum_list (map fst (map (\<lambda>s. (tokens_of s, edges_of s)) sb)) = sum_mset (image_mset tokens_of (mset sb))"
  by (induction sb) simp_all

lemma sum_list_edges:
  "sum_list (map snd (map (\<lambda>s. (tokens_of s, edges_of s)) sb)) = sum_mset (image_mset edges_of (mset sb))"
  by (induction sb) simp_all

lemma digest_sentencebatch_Inr:
  "digest_sentencebatch st sb = Inr st' \<longleftrightarrow>
     (\<forall>s \<in> set sb. digestible s) \<and> st' = add_sentences st (mset sb)"
proof (cases "digest_all sb")
  case (Inl e)
  then have "\<not> (\<forall>s \<in> set sb. digestible s)"
    using digest_all_Inr[of sb "map (\<lambda>s. (tokens_of s, edges_of s)) sb"] by simp
  with Inl show ?thesis by (simp add: digest_sentencebatch_def)
next
  case (Inr ds)
  then have ok: "\<forall>s \<in> set sb. digestible s" and ds: "ds = map (\<lambda>s. (tokens_of s, edges_of s)) sb"
    using digest_all_Inr[of sb ds] by simp_all
  have "foldl merge_stat st ds = add_sentences st (mset sb)"
    unfolding foldl_merge_stat add_sentences_def ds sum_list_tokens sum_list_edges ..
  with Inr ok show ?thesis by (auto simp: digest_sentencebatch_def)
qed

lemma add_sentences_add:
  "add_sentences (add_sentences st M) N = add_sentences st (M + N)"
  by (simp add: add_sentences_def add.assoc)

lemma add_sentences_empty: "add_sentences st {#} = st"
  by (simp add: add_sentences_def)

lemma digest_batches_Inr:
  "digest_batches st bs = Inr st' \<longleftrightarrow>
     (\<forall>s \<in> set (concat bs). digestible s) \<and> st' = add_sentences st (mset (concat bs))"
proof (induction bs arbitrary: st)
  case Nil
  show ?case by (auto simp: add_sentences_empty)
next
  case (Cons b bs)
  show ?case
  proof (cases "digest_sentencebatch st b")
    case (Inl e)
    then have "\<not> (\<forall>s \<in> set b. digestible s)"
      using digest_sentencebatch_Inr[of st b] by auto
    with Inl show ?thesis by auto
  next
    case (Inr st1)
    then have b: "\<forall>s \<in> set b. digestible s" and st1: "st1 = add_sentences st (mset b)"
      using digest_sentencebatch_Inr[of st b st1] by auto
    show ?thesis using Inr b Cons[of st1] by (auto simp: st1 add_sentences_add)
  qed
qed

text \<open>
  C7.  Merging the per-sentence tables into the aggregate tables is addition of counts
  key by key, so the result depends only on the multiset of sentences: if two sequences
  of batches hold the same sentences (in any grouping and any order) and digesting the
  first succeeds from a state, then digesting the second from that state succeeds with
  the same state, whose two tables are the old tables plus the sum of the contributions
  of the sentences.
\<close>

theorem merge_partition_independent:
  assumes "mset (concat bs1) = mset (concat bs2)"
    and "digest_batches st bs1 = Inr st1"
  shows "digest_batches st bs2 = Inr st1
     \<and> token_stats st1 = token_stats st + sum_mset (image_mset tokens_of (mset (concat bs1)))
     \<and> pair_stats st1 = pair_stats st + sum_mset (image_mset edges_of (mset (concat bs1)))"
proof -
  from assms(2) have ok: "\<forall>s \<in> set (concat bs1). digestible s"
    and st1: "st1 = add_sentences st (mset (concat bs1))"
    using digest_batches_Inr[of st bs1 st1] by auto
  from assms(1) have "set (concat bs1) = set (concat bs2)" by (metis set_mset_mset)
  with ok have "\<forall>s \<in> set (concat bs2). digestible s" by metis
  then have "digest_batches st bs2 = Inr st1"
    using digest_batches_Inr[of st bs2 st1] st1 assms(1) by simp
  then show ?thesis by (simp add: st1 add_sentences_def)
qed

theorem merge_partition_independent_witness:
  "mset (concat [[red_apple], [eat, red_apple]]) = mset (concat [[red_apple, red_apple, eat]])
   \<and> digest_batches (fresh []) [[red_apple], [eat, red_apple]]
       = Inr ((fresh [])\<lparr>token_stats := {#(StrV ''red'', StrV ''ADJ''), (StrV ''apple'', StrV ''NOUN''),
                                          (StrV ''eat'', StrV ''VERB''),
                                          (StrV ''red'', StrV ''ADJ''), (StrV ''apple'', StrV ''NOUN'')#},
                          pair_stats := {#((StrV ''red'', StrV ''ADJ''), (StrV ''apple'', StrV ''NOUN'')),
                                         ((StrV ''red'', StrV ''ADJ''), (StrV ''apple'', StrV ''NOUN''))#}\<rparr>)
   \<and> digest_batches (fresh []) [[red_apple, red_apple, eat]]
       = digest_batches (fresh []) [[red_apple], [eat, red_apple]]"
proof -
  have h1: "mset (concat [[red_apple], [eat, red_apple]]) = mset (concat [[red_apple, red_apple, eat]])"
    by simp
  have h2: "digest_batches (fresh []) [[red_apple], [eat, red_apple]]
       = Inr ((fresh [])\<lparr>token_stats := {#(StrV ''red'', StrV ''ADJ''), (StrV ''apple'', StrV ''NOUN''),
                                          (StrV ''eat'', StrV ''VERB''),
                                          (StrV ''red'', StrV ''ADJ''), (StrV ''apple'', StrV ''NOUN'')#},
                          pair_stats := {#((StrV ''red'', StrV ''ADJ''), (StrV ''apple'', StrV ''NOUN'')),
                                         ((StrV ''red'', StrV ''ADJ''), (StrV ''apple'', StrV ''NOUN''))#}\<rparr>)"
    by (simp add: digest_sentencebatch_def digest_sentence_def extract_edges_from_sentence_def
        py_index_def Word_def merge_stat_def red_apple_def eat_def fresh_def)
  from merge_partition_independent [OF h1 h2] h1 h2 show ?thesis by simp
qed

subsection \<open>The readers on concrete files\<close>

text \<open>
  C9.  The claim: lines whose \<open>sentence_id\<close> column reads 1, 1, 1, 2, 2, 3 yield exactly
  three sentences, of lengths 3, 2 and 1, the last one found through the sentinel record
  at the end of the input.  On the code, with the default schema (\<open>sentence_id:int\<close>), the
  sentinel line is cast like any other line and its first field (\<open>__EOF__\<close> in the
  checkpointed reader, the composite id followed by \<open>_EOF\<close> in the first reader) is not
  an integer: both readers raise \<open>ValueError\<close> at the last line, after two sentences of
  lengths 3 and 2.  With the column declared as a string the three sentences come out.
\<close>

theorem sentinel_cast_fails:
  "outcome (read default_fmt TAB 1 [(''f'', six_lines)] (new_corpus None None default_fmt))
     = Some ValueError
   \<and> map length (assembled (read default_fmt TAB 1 [(''f'', six_lines)]
                               (new_corpus None None default_fmt))) = [3, 2]
   \<and> outcome0 (read0 (new_corpus0 default_fmt) [(''f'', six_lines)]) = Some ValueError
   \<and> map length (yielded (read0 (new_corpus0 default_fmt) [(''f'', six_lines)])) = [3, 2]
   \<and> segment_line (dummy_line TAB) TAB default_fmt = Inl ValueError
   \<and> outcome (read str_fmt TAB 1 [(''f'', six_lines)] (new_corpus None None str_fmt)) = None
   \<and> map length (assembled (read str_fmt TAB 1 [(''f'', six_lines)]
                               (new_corpus None None str_fmt))) = [3, 2, 1]"
  by code_simp

text \<open>
  C6.  The claim: a blank line is skipped before it reaches the line segmenter and
  contributes nothing.  On the code, the checkpointed reader has no such test (it is
  commented out), and the first reader tests the current line only: in both, the
  lookahead hands the raw next line to \<open>segment_line\<close>.  A file of three one-token
  sentences is read without error; with an empty line after its first line both readers
  stop with the \<open>IndexError\<close> that \<open>segment_line\<close> raises on the empty line.
\<close>

theorem blank_line_reaches_segmenter:
  "outcome (read fmt4 TAB 1 [(''f'', three_lines)] (new_corpus None None fmt4)) = None
   \<and> outcome (read fmt4 TAB 1 [(''f'', lines_with_blank)] (new_corpus None None fmt4))
       = Some IndexError
   \<and> outcome0 (read0 (new_corpus0 fmt4) [(''f'', three_lines)]) = None
   \<and> outcome0 (read0 (new_corpus0 fmt4) [(''f'', lines_with_blank)]) = Some IndexError
   \<and> yielded (read0 (new_corpus0 fmt4) [(''f'', lines_with_blank)]) = []
   \<and> segment_line NL TAB fmt4 = Inl IndexError"
  by code_simp

text \<open>
  C8.  The claim: constructing a \<open>Corpus\<close> with a schema that has no field named
  \<open>sentence_id\<close> fails.  On the code, the constructor of the checkpointed reader does not
  look at the schema (the first \<open>read\<close> then fails with \<open>KeyError\<close>), and the constructor
  of the first reader accepts every schema with an item that contains the characters
  \<open>sentence_id:\<close>, such as a field named \<open>my_sentence_id\<close>.
\<close>

theorem schema_without_sentence_id_accepted:
  "\<not> isl (Corpus_init [''f''] None None [''text:str''])
   \<and> outcome (read [''text:str''] TAB 1 [(''f'', three_lines)]
                 (new_corpus None None [''text:str''])) = Some KeyError
   \<and> \<not> isl (Corpus0_init None [''my_sentence_id:int'', ''text:str''] TAB True True)
   \<and> Corpus0_init None [''text:str''] TAB True True = Inl ValueError"
  by code_simp

text \<open>
  C1.  The claim: interrupting \<open>read\<close> after some number of completed batches, then
  constructing a new \<open>Corpus\<close> from the persisted checkpoint and running \<open>read\<close> to its
  end, gives the tables of an uninterrupted \<open>read\<close>.  On the code, \<open>read\<close> tests the
  sentence limit at the end of the loop body only.  With a limit of one sentence and
  batches of one sentence, the uninterrupted run ends after the first sentence; a run
  resumed from the snapshot committed after that first batch skips the first line and
  digests the second sentence before it tests the limit: it ends with two sentences
  seen, above the limit, and with a larger token table.
\<close>

theorem resume_at_limit_overshoots:
  "outcome limited_run = None
   \<and> map sentences_seen (commits limited_run) = [1, 1]
   \<and> sentences_seen (final limited_run) = 1
   \<and> token_stats (final limited_run) = {#(StrV ''red'', StrV ''ADJ'')#}
   \<and> outcome resumed_run = None
   \<and> sentences_seen (final resumed_run) = 2
   \<and> token_stats (final resumed_run)
       = {#(StrV ''red'', StrV ''ADJ''), (StrV ''apple'', StrV ''NOUN'')#}"
  by code_simp

subsection \<open>The analysis on concrete corpora\<close>

lemmas example_defs = red_ADJ_def apple_NOUN_def pear_NOUN_def eat_VERB_def red_NOUN_def
  corpus_skip_def corpus_uniform_def corpus_pmi_def

lemmas analysis_defs = CompositionAnalysis_def crunch_corpus_stats_def token_frame_def
  pair_frame_def upos_dicts_def upos_pairs_def bare_token_stats_def dict_of_def
  generate_adjacency_matrix_def stat_rows_def has_col_def get_col_def set_col_def nrows_def
  index_of_def to_float_def iterrows_def Let_def run_analyses_def compute_combinations_def
  combinations_pass_def count_pairs_def count_step_def lookup_tokens_def compute_entropy_def
  entropy_pass_def entropy_def matrix_columns_def ceilinged_def norm_denom_def fillna0_def
  is_fin_def fin_val_def log2_value_def np_log2_def is_int64_def compute_pmi_def pmi_pass_def
  pmi_row_def

text \<open>
  C4.  The claim: every combination of relation kind (direct, skip) and statistic has
  its own adjacency matrix, built on first request from that combination's pair table.
  On the code there is one cache slot, \<open>self.matrix\<close>, tested before the arguments are
  looked at.  For a corpus whose one pair is seen once as a direct edge and twice as a
  skip pair, the first request \<open>skip=False\<close> builds the matrix \<open>[[1]]\<close>; a request
  \<open>skip=True\<close> on a new object builds \<open>[[2]]\<close>; the request \<open>skip=True\<close> after the request
  \<open>skip=False\<close> returns \<open>[[1]]\<close>, the matrix of the direct relation.
\<close>

theorem matrix_cache_ignores_arguments:
  "generate_adjacency_matrix False ''freq'' skip_analysis
       = Inr (skip_analysis\<lparr>matrix := Some [[Fin 1]]\<rparr>, [[Fin 1]])
   \<and> generate_adjacency_matrix True ''freq'' skip_analysis
       = Inr (skip_analysis\<lparr>matrix := Some [[Fin 2]]\<rparr>, [[Fin 2]])
   \<and> generate_adjacency_matrix True ''freq''
         (fst (projr (generate_adjacency_matrix False ''freq'' skip_analysis)))
       = Inr (skip_analysis\<lparr>matrix := Some [[Fin 1]]\<rparr>, [[Fin 1]])"
  by (simp add: analysis_defs example_defs skip_analysis_def)

text \<open>
  C5.  The claim: calling a derived-statistic computation a second time is a no-op and
  raises no error.  On the code this holds for \<open>compute_combinations\<close> and
  \<open>compute_entropy\<close>.  The guard of \<open>compute_pmi\<close> looks for the column \<open>pmi\<close> in the two
  token tables, while the column is written to the pair table: the guard never holds,
  the second call runs the loop again, and the rows of the pair table now have five
  cells where the loop unpacks four, which raises \<open>ValueError\<close>.
\<close>

theorem second_compute_pmi_raises:
  "\<not> isl (CompositionAnalysis corpus_skip ''ADJ'' ''NOUN'' True)
   \<and> has_col (pair_df skip_analysed) ''pmi''
   \<and> compute_pmi skip_analysed = Inl ValueError
   \<and> compute_combinations skip_analysed = skip_analysed
   \<and> compute_entropy skip_analysed = Inr skip_analysed"
  by (simp add: analysis_defs example_defs skip_analysed_def)

text \<open>
  C3.  The claim: the entropy column is the base-2 Shannon entropy, so a row uniform over
  \<open>k\<close> parents gets \<open>log2(k)\<close>.  On the code, \<open>scipy.stats.entropy\<close> is called without a
  base and works with the natural logarithm, while the normalising denominator is
  \<open>np.log2\<close>.  For an adjective seen once with each of two nouns the entropy column holds
  \<open>ln 2\<close>, not \<open>log2(2) = 1\<close>, and the normalised entropy of this evenly spread token is
  \<open>ln 2\<close> as well.  The columns of the matrix, with one nonzero cell each, get \<open>0\<close>.
\<close>

theorem entropy_is_in_nats:
  "get_col (child_df uniform_analysed) ''entropy'' = [CNum (Fin (ln 2))]
   \<and> ln (2::real) \<noteq> log 2 2
   \<and> get_col (child_df uniform_analysed) ''entropy_ceilinged'' = [CNum (Fin (ln 2))]
   \<and> get_col (parent_df uniform_analysed) ''entropy'' = [CNum (Fin 0), CNum (Fin 0)]
   \<and> matrix uniform_analysed = Some [[Fin 1, Fin 1]]"
proof -
  have "ln (2::real) < 1" by (rule ln_2_less_1)
  then have "ln (2::real) \<noteq> log 2 2" by simp
  then show ?thesis
    by (simp add: analysis_defs example_defs uniform_analysed_def ln_div)
qed

subsection \<open>Dict comprehensions\<close>

lemma map_of_foldl_update:
  "map_of (foldl (\<lambda>d kv. AList.update (fst kv) (snd kv) d) d0 xs) = map_of d0 ++ map_of (rev xs)"
proof (induction xs arbitrary: d0)
  case Nil
  show ?case by simp
next
  case (Cons x xs)
  have "map_of (AList.update (fst x) (snd x) d0) ++ map_of (rev xs)
        = map_of d0 ++ ([fst x \<mapsto> snd x] ++ map_of (rev xs))"
    by (rule ext) (auto simp: update_conv' map_add_def split: option.splits)
  then show ?case using Cons[of "AList.update (fst x) (snd x) d0"]
    by (cases x) simp
qed

lemma map_of_dict_of: "map_of (dict_of xs) = map_of (rev xs)"
  by (simp add: dict_of_def map_of_foldl_update)





subsection \<open>What \<open>compute_pmi\<close> writes\<close>

lemma has_col_set_col: "has_col (set_col df k cs) k' \<longleftrightarrow> k' = k \<or> has_col df k'"
  by (simp add: has_col_def set_col_def update_conv')

lemma get_col_set_col_same: "get_col (set_col df k cs) k = cs"
  by (simp add: get_col_def set_col_def update_conv')

lemma get_col_set_col_other: "k' \<noteq> k \<Longrightarrow> get_col (set_col df k cs) k' = get_col df k'"
  by (simp add: get_col_def set_col_def update_conv')

lemma nrows_set_col: "df \<noteq> [] \<Longrightarrow> \<not> has_col df k \<Longrightarrow> nrows (set_col df k cs) = nrows df"
  by (cases df) (auto simp: nrows_def set_col_def has_col_def)

lemma combinations_pass_view:
  "key \<in> {''combinations'', ''skip_combinations''} \<Longrightarrow>
     pmi_view (combinations_pass key d a) = pmi_view a"
  by (auto simp: combinations_pass_def pmi_view_def Let_def has_col_set_col)

lemma compute_combinations_view: "pmi_view (compute_combinations a) = pmi_view a"
  by (simp add: compute_combinations_def Let_def combinations_pass_view)

lemma generate_adjacency_matrix_view:
  "generate_adjacency_matrix skip stat a = Inr am \<Longrightarrow> pmi_view (fst am) = pmi_view a
     \<and> child_df (fst am) = child_df a \<and> parent_df (fst am) = parent_df a"
  by (auto simp: generate_adjacency_matrix_def pmi_view_def Let_def
      split: option.splits if_splits sum.splits)

lemma entropy_pass_view:
  "key \<in> {''entropy'', ''entropy_skip''} \<Longrightarrow> entropy_pass key skip a = Inr a1 \<Longrightarrow>
     pmi_view a1 = pmi_view a"
proof -
  assume k: "key \<in> {''entropy'', ''entropy_skip''}" and e: "entropy_pass key skip a = Inr a1"
  from e obtain am where g: "generate_adjacency_matrix skip ''freq'' a = Inr am"
    by (auto simp: entropy_pass_def split: sum.splits)
  from generate_adjacency_matrix_view[OF g] e g k show ?thesis
    by (auto simp: entropy_pass_def pmi_view_def Let_def has_col_set_col)
qed

lemma compute_entropy_view: "compute_entropy a = Inr a1 \<Longrightarrow> pmi_view a1 = pmi_view a"
  unfolding compute_entropy_def
  by (auto split: if_splits sum.splits dest!: entropy_pass_view[rotated])

lemma crunch_facts:
  assumes "crunch_corpus_stats cu pu corpus = Inr a"
  shows "pmi_stats skip a
           = upos_pairs cu pu (if skip then cs_skip_pair_stats corpus else cs_pair_stats corpus)"
    and "pair_frame (pmi_stats skip a) = Inr (pmi_table skip a)"
    and "\<not> has_col (child_df a) ''pmi''"
    and "\<not> has_col (child_df a) ''skip_pmi''"
    and "a_token_stats a = bare_token_stats cu pu (cs_token_stats corpus)"
    and "a_n_tokens a = sum_list (map snd (cs_token_stats corpus))"
  using assms
  by (auto simp: crunch_corpus_stats_def token_frame_def has_col_def Let_def pmi_stats_def
      pmi_table_def split: sum.splits if_splits)

lemma pair_frame_facts:
  assumes "pair_frame items = Inr df"
  shows "iterrows df = map (\<lambda>r. [CStr (fst (fst r)), CStr (snd (fst r)),
                                    CPair (fst (fst r)) (snd (fst r)), CInt (snd r)])
                           (sort_key (\<lambda>r. - snd r) items)"
    and "get_col df ''pair'' = map (\<lambda>r. CPair (fst (fst r)) (snd (fst r))) (sort_key (\<lambda>r. - snd r) items)"
    and "get_col df ''freq'' = map (\<lambda>r. CInt (snd r)) (sort_key (\<lambda>r. - snd r) items)"
    and "nrows df = length items"
    and "\<not> has_col df ''pmi''" and "\<not> has_col df ''skip_pmi''"
    and "df \<noteq> []"
proof -
  let ?rows = "sort_key (\<lambda>r. - snd r) items"
  from assms have df: "df = [(''child'', map (\<lambda>r. CStr (fst (fst r))) ?rows),
             (''parent'', map (\<lambda>r. CStr (snd (fst r))) ?rows),
             (''pair'', map (\<lambda>r. CPair (fst (fst r)) (snd (fst r))) ?rows),
             (''freq'', map (\<lambda>r. CInt (snd r)) ?rows)]"
    by (auto simp: pair_frame_def Let_def split: if_splits)
  show "nrows df = length items" by (simp add: df nrows_def)
  show "iterrows df = map (\<lambda>r. [CStr (fst (fst r)), CStr (snd (fst r)),
                                    CPair (fst (fst r)) (snd (fst r)), CInt (snd r)]) ?rows"
    by (rule nth_equalityI) (simp_all add: df iterrows_def nrows_def)
  show "get_col df ''pair'' = map (\<lambda>r. CPair (fst (fst r)) (snd (fst r))) ?rows"
    by (simp add: df get_col_def)
  show "get_col df ''freq'' = map (\<lambda>r. CInt (snd r)) ?rows"
    by (simp add: df get_col_def)
  show "\<not> has_col df ''pmi''" by (simp add: df has_col_def)
  show "\<not> has_col df ''skip_pmi''" by (simp add: df has_col_def)
  show "df \<noteq> []" by (simp add: df)
qed

lemma pmi_rows_Inr:
  "pmi_rows ts n rows = Inr vs \<Longrightarrow>
     length vs = length rows \<and> (\<forall>i < length rows. pmi_row ts n (rows ! i) = Inr (vs ! i))"
proof (induction rows arbitrary: vs)
  case Nil
  then show ?case by simp
next
  case (Cons row rows)
  from Cons.prems obtain v vs' where v: "pmi_row ts n row = Inr v"
    and vs': "pmi_rows ts n rows = Inr vs'" and vs: "vs = v # vs'"
    by (auto split: sum.splits)
  from Cons.IH[OF vs'] v show ?case
    by (auto simp: vs nth_Cons split: nat.splits)
qed

lemma compute_pmi_Inr:
  assumes "compute_pmi a = Inr a'"
    and "\<not> has_col (child_df a) ''pmi''" and "\<not> has_col (child_df a) ''skip_pmi''"
  shows "\<exists>vs. pmi_rows (a_token_stats a) (a_n_tokens a) (iterrows (pmi_table skip a)) = Inr vs
            \<and> pmi_table skip a' = set_col (pmi_table skip a) (pmi_key skip) vs"
    and "a_token_stats a' = a_token_stats a"
    and "a_n_tokens a' = a_n_tokens a"
    and "pmi_stats skip a' = pmi_stats skip a"
  using assms
  by (auto simp: compute_pmi_def pmi_pass_def Let_def pmi_table_def pmi_key_def pmi_stats_def
      split: sum.splits if_splits)

text \<open>After \<open>CompositionAnalysis(corpus, cu, pu)\<close> has run its analyses, either pair table
  has one row for each item of its counter, in descending order of the count, and its
  PMI column holds for each row what the loop body of \<open>compute_pmi\<close> computes from the
  token table of the analysis and the corpus total.\<close>

lemma analysed_pmi_cells:
  assumes "CompositionAnalysis corpus cu pu True = Inr a"
  shows "a_token_stats a = bare_token_stats cu pu (cs_token_stats corpus)"
    and "a_n_tokens a = sum_list (map snd (cs_token_stats corpus))"
    and "pmi_stats skip a
           = upos_pairs cu pu (if skip then cs_skip_pair_stats corpus else cs_pair_stats corpus)"
    and "nrows (pmi_table skip a) = length (pmi_stats skip a)"
    and "get_col (pmi_table skip a) ''pair''
           = map (\<lambda>r. CPair (fst (fst r)) (snd (fst r))) (sort_key (\<lambda>r. - snd r) (pmi_stats skip a))"
    and "get_col (pmi_table skip a) ''freq''
           = map (\<lambda>r. CInt (snd r)) (sort_key (\<lambda>r. - snd r) (pmi_stats skip a))"
    and "\<And>i. i < length (pmi_stats skip a) \<Longrightarrow>
           pmi_row (a_token_stats a) (a_n_tokens a)
             [CStr (fst (fst (sort_key (\<lambda>r. - snd r) (pmi_stats skip a) ! i))),
              CStr (snd (fst (sort_key (\<lambda>r. - snd r) (pmi_stats skip a) ! i))),
              CPair (fst (fst (sort_key (\<lambda>r. - snd r) (pmi_stats skip a) ! i)))
                    (snd (fst (sort_key (\<lambda>r. - snd r) (pmi_stats skip a) ! i))),
              CInt (snd (sort_key (\<lambda>r. - snd r) (pmi_stats skip a) ! i))]
           = Inr (get_col (pmi_table skip a) (pmi_key skip) ! i)"
proof -
  from assms obtain a0 a2 where a0: "crunch_corpus_stats cu pu corpus = Inr a0"
    and a2: "compute_entropy (compute_combinations a0) = Inr a2"
    and a: "compute_pmi a2 = Inr a"
    by (auto simp: CompositionAnalysis_def run_analyses_def split: sum.splits)
  have view: "pmi_view a2 = pmi_view a0"
    using compute_entropy_view[OF a2] compute_combinations_view[of a0] by simp
  note c0 = crunch_facts[OF a0]
  note c = c0(1)[of skip] c0(2)[of skip] c0(3-6)
  have ts: "a_token_stats a2 = a_token_stats a0" and n: "a_n_tokens a2 = a_n_tokens a0"
    and tab: "pmi_table skip a2 = pmi_table skip a0" and ps: "pmi_stats skip a2 = pmi_stats skip a0"
    and nopmi: "\<not> has_col (child_df a2) ''pmi''" "\<not> has_col (child_df a2) ''skip_pmi''"
    using view c(3,4) by (auto simp: pmi_view_def pmi_table_def pmi_stats_def)
  note p0 = compute_pmi_Inr[OF a nopmi]
  note p = p0(1)[of skip] p0(2,3) p0(4)[of skip]
  from p(1) obtain vs
    where vs: "pmi_rows (a_token_stats a2) (a_n_tokens a2) (iterrows (pmi_table skip a2)) = Inr vs"
      and taba: "pmi_table skip a = set_col (pmi_table skip a2) (pmi_key skip) vs" by blast
  have st: "pmi_stats skip a = pmi_stats skip a0" using p(4) ps by simp
  note f = pair_frame_facts[OF c(2)]
  have key: "\<not> has_col (pmi_table skip a0) (pmi_key skip)"
    "''pair'' \<noteq> pmi_key skip" "''freq'' \<noteq> pmi_key skip"
    using f(5,6) by (cases skip; simp add: pmi_key_def)+
  show "a_token_stats a = bare_token_stats cu pu (cs_token_stats corpus)"
    using p(2) ts c(5) by simp
  show "a_n_tokens a = sum_list (map snd (cs_token_stats corpus))"
    using p(3) n c(6) by simp
  show "pmi_stats skip a
           = upos_pairs cu pu (if skip then cs_skip_pair_stats corpus else cs_pair_stats corpus)"
    using st c(1) by simp
  show "nrows (pmi_table skip a) = length (pmi_stats skip a)"
    using f(4) f(7) key(1) by (simp add: taba tab st nrows_set_col)
  show "get_col (pmi_table skip a) ''pair''
           = map (\<lambda>r. CPair (fst (fst r)) (snd (fst r))) (sort_key (\<lambda>r. - snd r) (pmi_stats skip a))"
    using key(2) by (simp add: taba tab st get_col_set_col_other f(2))
  show "get_col (pmi_table skip a) ''freq''
           = map (\<lambda>r. CInt (snd r)) (sort_key (\<lambda>r. - snd r) (pmi_stats skip a))"
    using key(3) by (simp add: taba tab st get_col_set_col_other f(3))
  fix i assume i: "i < length (pmi_stats skip a)"
  have col: "get_col (pmi_table skip a) (pmi_key skip) = vs"
    by (simp add: taba get_col_set_col_same)
  from pmi_rows_Inr[OF vs] i
  show "pmi_row (a_token_stats a) (a_n_tokens a)
             [CStr (fst (fst (sort_key (\<lambda>r. - snd r) (pmi_stats skip a) ! i))),
              CStr (snd (fst (sort_key (\<lambda>r. - snd r) (pmi_stats skip a) ! i))),
              CPair (fst (fst (sort_key (\<lambda>r. - snd r) (pmi_stats skip a) ! i)))
                    (snd (fst (sort_key (\<lambda>r. - snd r) (pmi_stats skip a) ! i))),
              CInt (snd (sort_key (\<lambda>r. - snd r) (pmi_stats skip a) ! i))]
           = Inr (get_col (pmi_table skip a) (pmi_key skip) ! i)"
    by (simp add: col tab f(1) st ts n p(2) p(3))
qed

lemma np_log2_Inr: "np_log2 x = Inr l \<Longrightarrow> l = log2_value x"
  by (auto simp: np_log2_def split: if_splits)

lemma pmi_row_Inr:
  assumes "pmi_row ts n [c1, c2, CPair w p, CInt c] = Inr v"
  shows "\<exists>fw fp. map_of ts w = Some fw \<and> map_of ts p = Some fp
           \<and> v = CNum (fsub (fsub (log2_value c) (log2_value fw))
                              (fsub (log2_value fp) (log2_value n)))"
  using assms by (auto simp: pmi_row_def split: option.splits sum.splits dest!: np_log2_Inr)


subsection \<open>Pointwise mutual information\<close>







subsection \<open>The token table of the analysis\<close>

lemma homonym_eval:
  "CompositionAnalysis corpus_homonym ''ADJ'' ''NOUN'' True = Inr homonym_analysis
   \<and> a_token_stats homonym_analysis = [(''red'', 7), (''apple'', 50)]
   \<and> a_n_tokens homonym_analysis = 157
   \<and> get_col (child_df homonym_analysis) ''freq'' = [CInt 100]
   \<and> nrows (skip_pair_df homonym_analysis) = 1
   \<and> get_col (skip_pair_df homonym_analysis) ''pair'' = [CPair ''red'' ''red'']
   \<and> get_col (skip_pair_df homonym_analysis) ''freq'' = [CInt 2]"
  by (simp add: analysis_defs example_defs homonym_analysis_def corpus_homonym_def)

text \<open>
  C10.  When the same text \<open>t\<close> occurs in the corpus table under both selected
  categories, first with one count and later with the count \<open>n2\<close>, the token table of the
  analysis, keyed by the bare text, holds \<open>n2\<close> alone (not the sum), and every PMI cell
  that \<open>compute_pmi\<close> writes, in the pair table and in the skip-pair table, for a row
  whose child or whose parent is \<open>t\<close>, is computed with \<open>n2\<close> as the frequency of \<open>t\<close>.
\<close>

theorem token_stats_last_category_wins:
  assumes "CompositionAnalysis corpus cu pu True = Inr a"
    and "distinct (map fst (cs_token_stats corpus))"
    and "cs_token_stats corpus = xs @ ((t, u1), n1) # ys @ ((t, u2), n2) # zs"
    and "u1 \<noteq> u2" and "{u1, u2} = {cu, pu}"
    and "i < nrows (pmi_table skip a)"
    and "get_col (pmi_table skip a) ''pair'' ! i = CPair w p"
  shows "map_of (a_token_stats a) t = Some n2
     \<and> (\<exists>c fw fp. get_col (pmi_table skip a) ''freq'' ! i = CInt c
           \<and> map_of (a_token_stats a) w = Some fw \<and> map_of (a_token_stats a) p = Some fp
           \<and> (w = t \<longrightarrow> fw = n2) \<and> (p = t \<longrightarrow> fp = n2)
           \<and> get_col (pmi_table skip a) (pmi_key skip) ! i
               = CNum (fsub (fsub (log2_value c) (log2_value fw))
                            (fsub (log2_value fp) (log2_value (a_n_tokens a)))))"
proof -
  note an0 = analysed_pmi_cells[OF assms(1)]
  note an = an0(1,2) an0(3-7)[where skip = skip]
  let ?sel = "\<lambda>kv::tkey \<times> int. snd (fst kv) = cu \<or> snd (fst kv) = pu"
  let ?bare = "\<lambda>kv::tkey \<times> int. (fst (fst kv), snd kv)"
  have u2: "u2 = cu \<or> u2 = pu" and u: "\<And>u. u = cu \<or> u = pu \<Longrightarrow> u = u1 \<or> u = u2"
    using assms(5) by auto
  have no_later: "t \<notin> fst ` set (map ?bare (filter ?sel zs))"
  proof
    assume "t \<in> fst ` set (map ?bare (filter ?sel zs))"
    then obtain u n where in_zs: "((t, u), n) \<in> set zs" and "u = cu \<or> u = pu"
      by auto
    then have "u = u1 \<or> u = u2" using u by blast
    moreover have "(t, u) \<in> set (map fst zs)" using in_zs by force
    ultimately show False using assms(2) unfolding assms(3) by auto
  qed
  have z: "map_of (rev (map ?bare (filter ?sel zs))) t = None"
    using no_later by (simp add: map_of_eq_None_iff)
  have "map_of (rev (map ?bare (filter ?sel (cs_token_stats corpus)))) t = Some n2"
    unfolding assms(3) using u2 z by (simp add: map_add_def)
  then have t: "map_of (a_token_stats a) t = Some n2"
    using an(1) by (simp add: bare_token_stats_def map_of_dict_of)
  let ?rows = "sort_key (\<lambda>r. - snd r) (pmi_stats skip a)"
  have i: "i < length (pmi_stats skip a)" using assms(6) an(4) by simp
  then have il: "i < length ?rows" by simp
  have wp: "fst (fst (?rows ! i)) = w" "snd (fst (?rows ! i)) = p"
    using assms(7) il by (simp_all add: an(5))
  have fr: "get_col (pmi_table skip a) ''freq'' ! i = CInt (snd (?rows ! i))"
    using il by (simp add: an(6))
  from an(7)[OF i] wp
  have row: "pmi_row (a_token_stats a) (a_n_tokens a)
      [CStr w, CStr p, CPair w p, CInt (snd (?rows ! i))]
      = Inr (get_col (pmi_table skip a) (pmi_key skip) ! i)" by simp
  from pmi_row_Inr[OF row] obtain fw fp
    where "map_of (a_token_stats a) w = Some fw" "map_of (a_token_stats a) p = Some fp"
      "get_col (pmi_table skip a) (pmi_key skip) ! i
         = CNum (fsub (fsub (log2_value (snd (?rows ! i))) (log2_value fw))
                      (fsub (log2_value fp) (log2_value (a_n_tokens a))))"
    by blast
  with t fr show ?thesis by auto
qed

theorem token_stats_last_category_wins_witness:
  "CompositionAnalysis corpus_homonym ''ADJ'' ''NOUN'' True = Inr homonym_analysis
   \<and> distinct (map fst (cs_token_stats corpus_homonym))
   \<and> cs_token_stats corpus_homonym
       = [] @ ((''red'', ''ADJ''), 100) # [(apple_NOUN, 50)] @ ((''red'', ''NOUN''), 7) # []
   \<and> nrows (pmi_table True homonym_analysis) = 1
   \<and> get_col (pmi_table True homonym_analysis) ''pair'' ! 0 = CPair ''red'' ''red''
   \<and> get_col (child_df homonym_analysis) ''freq'' = [CInt 100]
   \<and> map_of (a_token_stats homonym_analysis) ''red'' = Some 7
   \<and> get_col (pmi_table True homonym_analysis) (pmi_key True) ! 0
       = CNum (fsub (fsub (log2_value 2) (log2_value 7)) (fsub (log2_value 7) (log2_value 157)))"
proof -
  note ev = homonym_eval
  have h1: "CompositionAnalysis corpus_homonym ''ADJ'' ''NOUN'' True = Inr homonym_analysis"
    using ev by simp
  have h2: "distinct (map fst (cs_token_stats corpus_homonym))"
    by (simp add: corpus_homonym_def example_defs)
  have h3: "cs_token_stats corpus_homonym
       = [] @ ((''red'', ''ADJ''), 100) # [(apple_NOUN, 50)] @ ((''red'', ''NOUN''), 7) # []"
    by (simp add: corpus_homonym_def example_defs)
  have h4: "''ADJ'' \<noteq> ''NOUN''" by simp
  have h5: "{''ADJ'', ''NOUN''} = {''ADJ'', ''NOUN''}" by simp
  have h6: "0 < nrows (pmi_table True homonym_analysis)"
    using ev by (simp add: pmi_table_def)
  have h7: "get_col (pmi_table True homonym_analysis) ''pair'' ! 0 = CPair ''red'' ''red''"
    using ev by (simp add: pmi_table_def)
  have fr: "get_col (pmi_table True homonym_analysis) ''freq'' ! 0 = CInt 2"
    using ev by (simp add: pmi_table_def)
  from token_stats_last_category_wins [OF h1 h2 h3 h4 h5 h6 h7] fr
  have "map_of (a_token_stats homonym_analysis) ''red'' = Some 7
     \<and> get_col (pmi_table True homonym_analysis) (pmi_key True) ! 0
       = CNum (fsub (fsub (log2_value 2) (log2_value 7))
                    (fsub (log2_value 7) (log2_value (a_n_tokens homonym_analysis))))"
    by auto
  with h1 h2 h3 h7 ev show ?thesis by (simp add: pmi_table_def)
qed

subsection \<open>Resuming the checkpointed reader before the limit is reached\<close>

lemma run_wrappers [simp]:
  "final (to_cache s r) = final r" "outcome (to_cache s r) = outcome r"
  "commits (to_cache s r) = s # commits r"
  "final (emit x r) = final r" "outcome (emit x r) = outcome r"
  "commits (emit x r) = commits r"
  "commits (raised e s) = []" "commits (returned s) = []"
  "final (returned s) = s" "outcome (returned s) = None"
  by (simp_all add: to_cache_def emit_def raised_def returned_def)

lemma length_Document_sentence [simp]: "length (Document_sentence recs) = length recs"
  by (simp add: Document_sentence_def)

lemma digest_sentencebatch_fields:
  assumes "digest_sentencebatch st sb = Inr st2"
  shows "lines_read st2 = lines_read st" "sentences_seen st2 = sentences_seen st"
    "total st2 = total st" "n_sentences st2 = n_sentences st" "files st2 = files st"
  using assms by (simp_all add: digest_sentencebatch_Inr add_sentences_def)

lemma read_loop_skip:
  "read_loop fmt sep bsz eofn ls skip this batch st
     = read_loop fmt sep bsz eofn (drop skip ls) 0 this batch st"
proof (induction ls arbitrary: skip)
  case Nil
  show ?case by simp
next
  case (Cons fl rest)
  show ?case
  proof (cases skip)
    case 0
    then show ?thesis by simp
  next
    case (Suc k)
    then show ?thesis using Cons[of k] by simp
  qed
qed

text \<open>One pass through the loop body on a line that is not skipped: the call ends with
  no commit other than at the limit, or it commits a snapshot below the limit and goes
  on from it with an empty sentence and an empty batch, or it goes on without a commit.
  In the last two cases one more line is accounted for.\<close>

lemma read_loop_Cons_cases:
  fixes fmt sep bsz eofn fl rest this batch st0
  defines "L \<equiv> read_loop fmt sep bsz eofn (fl # rest) 0 this batch st0"
  shows "(\<forall>c \<in> set (commits L). reaches (sentences_seen c) (n_sentences c))
    \<or> (\<exists>st3. final L = final (read_loop fmt sep bsz eofn rest 0 [] [] st3)
           \<and> outcome L = outcome (read_loop fmt sep bsz eofn rest 0 [] [] st3)
           \<and> commits L = st3 # commits (read_loop fmt sep bsz eofn rest 0 [] [] st3)
           \<and> \<not> reaches (sentences_seen st3) (n_sentences st3)
           \<and> lines_read st3 = Suc (consumed st0 this batch) \<and> same_setup st3 st0)
    \<or> (\<exists>this' batch' st'.
             final L = final (read_loop fmt sep bsz eofn rest 0 this' batch' st')
           \<and> outcome L = outcome (read_loop fmt sep bsz eofn rest 0 this' batch' st')
           \<and> commits L = commits (read_loop fmt sep bsz eofn rest 0 this' batch' st')
           \<and> consumed st' this' batch' = Suc (consumed st0 this batch) \<and> same_setup st' st0)"
proof -
  let ?st = "st0\<lparr>current_file := Some (fst fl)\<rparr>"
  let ?A = "\<forall>c \<in> set (commits L). reaches (sentences_seen c) (n_sentences c)"
  show ?thesis
  proof (cases "segment_line (snd fl) sep fmt")
    case (Inl e)
    then have "commits L = []" by (simp add: L_def Let_def)
    then show ?thesis by simp
  next
    case p0: (Inr parse0)
    show ?thesis
    proof (cases "qualify (fst fl) parse0")
      case (Inl e)
      then have "commits L = []" using p0 by (simp add: L_def Let_def)
      then show ?thesis by simp
    next
      case p: (Inr parse)
      show ?thesis
      proof (cases "segment_line (snd (peek eofn sep rest)) sep fmt")
        case (Inl e)
        then have "commits L = []" using p0 p by (simp add: L_def Let_def)
        then show ?thesis by simp
      next
        case n0: (Inr next0)
        show ?thesis
        proof (cases "qualify (fst (peek eofn sep rest)) next0")
          case (Inl e)
          then have "commits L = []" using p0 p n0 by (simp add: L_def Let_def)
          then show ?thesis by simp
        next
          case n: (Inr next_parse)
          note parsed = p0 p n0 n
          let ?sent = "Document_sentence (this @ [parse])"
          let ?batch = "batch @ [?sent]"
          show ?thesis
          proof (cases "sentence_id next_parse \<noteq> sentence_id parse")
            case boundary: True
            show ?thesis
            proof (cases "bsz \<le> int (length batch + 1)
                    \<or> reaches (sentences_seen ?st + (length batch + 1)) (n_sentences ?st)")
              case full: True
              show ?thesis
              proof (cases "digest_sentencebatch ?st ?batch")
                case (Inl e)
                then have "commits L = []" using parsed boundary full by (simp add: L_def Let_def)
                then show ?thesis by simp
              next
                case d: (Inr st2)
                let ?st3 = "st2\<lparr>lines_read := lines_read st2 + sum_list (map length ?batch),
                                 sentences_seen := sentences_seen st2 + (length batch + 1)\<rparr>"
                note f = digest_sentencebatch_fields[OF d]
                show ?thesis
                proof (cases "reaches (sentences_seen ?st3) (n_sentences ?st3)")
                  case True
                  then have "commits L = [?st3, ?st3]"
                    using parsed boundary full d by (simp add: L_def Let_def)
                  with True show ?thesis by simp
                next
                  case False
                  then have "final L = final (read_loop fmt sep bsz eofn rest 0 [] [] ?st3)
                     \<and> outcome L = outcome (read_loop fmt sep bsz eofn rest 0 [] [] ?st3)
                     \<and> commits L = ?st3 # commits (read_loop fmt sep bsz eofn rest 0 [] [] ?st3)"
                    using parsed boundary full d by (simp add: L_def Let_def)
                  moreover have "lines_read ?st3 = Suc (consumed st0 this batch)"
                    using f by (simp add: consumed_def)
                  moreover have "same_setup ?st3 st0"
                    using f by (simp add: same_setup_def)
                  ultimately show ?thesis using False by blast
                qed
              qed
            next
              case notfull: False
              show ?thesis
              proof (cases "reaches (sentences_seen ?st) (n_sentences ?st)")
                case True
                then have "commits L = [?st]"
                  using parsed boundary notfull by (simp add: L_def Let_def)
                with True show ?thesis by simp
              next
                case False
                then have "final L = final (read_loop fmt sep bsz eofn rest 0 [] ?batch ?st)
                   \<and> outcome L = outcome (read_loop fmt sep bsz eofn rest 0 [] ?batch ?st)
                   \<and> commits L = commits (read_loop fmt sep bsz eofn rest 0 [] ?batch ?st)"
                  using parsed boundary notfull by (simp add: L_def Let_def)
                moreover have "consumed ?st [] ?batch = Suc (consumed st0 this batch)"
                  by (simp add: consumed_def)
                moreover have "same_setup ?st st0" by (simp add: same_setup_def)
                ultimately show ?thesis by blast
              qed
            qed
          next
            case inside: False
            show ?thesis
            proof (cases "reaches (sentences_seen ?st) (n_sentences ?st)")
              case True
              then have "commits L = [?st]"
                using parsed inside by (simp add: L_def Let_def)
              with True show ?thesis by simp
            next
              case False
              then have "final L = final (read_loop fmt sep bsz eofn rest 0 (this @ [parse]) batch ?st)
                 \<and> outcome L = outcome (read_loop fmt sep bsz eofn rest 0 (this @ [parse]) batch ?st)
                 \<and> commits L = commits (read_loop fmt sep bsz eofn rest 0 (this @ [parse]) batch ?st)"
                using parsed inside by (simp add: L_def Let_def)
              moreover have "consumed ?st (this @ [parse]) batch = Suc (consumed st0 this batch)"
                by (simp add: consumed_def)
              moreover have "same_setup ?st st0" by (simp add: same_setup_def)
              ultimately show ?thesis by blast
            qed
          qed
        qed
      qed
    qed
  qed
qed


lemma same_setup_trans: "same_setup a b \<Longrightarrow> same_setup b c \<Longrightarrow> same_setup a c"
  by (simp add: same_setup_def)

text \<open>The run after a commit below the limit is the run of the loop that starts at the
  committed snapshot, on the lines that the snapshot does not count, with an empty
  sentence and an empty batch.\<close>

lemma commits_resume:
  assumes "c \<in> set (commits (read_loop fmt sep bsz eofn ls 0 this batch st))"
    and "\<not> reaches (sentences_seen c) (n_sentences c)"
  shows "final (read_loop fmt sep bsz eofn ls 0 this batch st)
           = final (read_loop fmt sep bsz eofn (drop (lines_read c - consumed st this batch) ls) 0 [] [] c)
       \<and> outcome (read_loop fmt sep bsz eofn ls 0 this batch st)
           = outcome (read_loop fmt sep bsz eofn (drop (lines_read c - consumed st this batch) ls) 0 [] [] c)
       \<and> consumed st this batch < lines_read c
       \<and> same_setup c st"
  using assms
proof (induction ls arbitrary: this batch st)
  case Nil
  then show ?case by simp
next
  case (Cons fl rest)
  let ?L = "read_loop fmt sep bsz eofn (fl # rest) 0 this batch st"
  let ?k = "consumed st this batch"
  from read_loop_Cons_cases[of fmt sep bsz eofn fl rest this batch st]
  consider (stop) "\<forall>c \<in> set (commits ?L). reaches (sentences_seen c) (n_sentences c)"
    | (commit) st3 where "final ?L = final (read_loop fmt sep bsz eofn rest 0 [] [] st3)"
        "outcome ?L = outcome (read_loop fmt sep bsz eofn rest 0 [] [] st3)"
        "commits ?L = st3 # commits (read_loop fmt sep bsz eofn rest 0 [] [] st3)"
        "lines_read st3 = Suc ?k" "same_setup st3 st"
    | (go) this' batch' st' where
        "final ?L = final (read_loop fmt sep bsz eofn rest 0 this' batch' st')"
        "outcome ?L = outcome (read_loop fmt sep bsz eofn rest 0 this' batch' st')"
        "commits ?L = commits (read_loop fmt sep bsz eofn rest 0 this' batch' st')"
        "consumed st' this' batch' = Suc ?k" "same_setup st' st"
    by blast
  then show ?case
  proof cases
    case stop
    with Cons.prems show ?thesis by blast
  next
    case commit
    show ?thesis
    proof (cases "c = st3")
      case True
      then have "lines_read c - ?k = Suc 0" using commit(4) by simp
      then show ?thesis using commit True by simp
    next
      case False
      then have in_rest: "c \<in> set (commits (read_loop fmt sep bsz eofn rest 0 [] [] st3))"
        using Cons.prems(1) commit(3) by simp
      have k3: "consumed st3 [] [] = Suc ?k" using commit(4) by (simp add: consumed_def)
      note ih = Cons.IH[OF in_rest Cons.prems(2), unfolded k3]
      then have "lines_read c - ?k = Suc (lines_read c - Suc ?k)" by linarith
      then show ?thesis using ih commit same_setup_trans by auto
    qed
  next
    case go
    have in_rest: "c \<in> set (commits (read_loop fmt sep bsz eofn rest 0 this' batch' st'))"
      using Cons.prems(1) go(3) by simp
    note ih = Cons.IH[OF in_rest Cons.prems(2), unfolded go(4)]
    then have "lines_read c - ?k = Suc (lines_read c - Suc ?k)" by linarith
    then show ?thesis using ih go same_setup_trans by auto
  qed
qed

text \<open>The loop overwrites \<open>_current_file\<close> before it reads it.\<close>

lemma read_loop_current_file:
  "outcome (read_loop fmt sep bsz eofn ls 0 [] [] (s\<lparr>current_file := x\<rparr>))
     = outcome (read_loop fmt sep bsz eofn ls 0 [] [] s)
   \<and> (final (read_loop fmt sep bsz eofn ls 0 [] [] (s\<lparr>current_file := x\<rparr>)))\<lparr>current_file := None\<rparr>
     = (final (read_loop fmt sep bsz eofn ls 0 [] [] s))\<lparr>current_file := None\<rparr>"
  by (cases ls) simp_all

text \<open>
  Resuming before the limit.  Let a reader be constructed (from any content of the
  checkpoint store) and \<open>read\<close> be called; let \<open>c\<close> be a snapshot that this call commits
  with fewer sentences seen than the limit.  A second reader constructed from \<open>c\<close> with
  the same limit, reading the same input with the same batch size, ends as the first
  call ends: same exception or none, and the same state but for \<open>_current_file\<close>; in
  particular the same two tables.
\<close>

theorem resume_before_limit:
  assumes "Corpus_init fs cache n fmt = Inr st0"
    and "c \<in> set (commits (read fmt sep bsz inp st0))"
    and "\<not> reaches (sentences_seen c) (n_sentences c)"
    and "Corpus_init fs (Some c) n fmt = Inr st1"
  shows "outcome (read fmt sep bsz inp st1) = outcome (read fmt sep bsz inp st0)
     \<and> token_stats (final (read fmt sep bsz inp st1)) = token_stats (final (read fmt sep bsz inp st0))
     \<and> pair_stats (final (read fmt sep bsz inp st1)) = pair_stats (final (read fmt sep bsz inp st0))
     \<and> sentences_seen (final (read fmt sep bsz inp st1)) = sentences_seen (final (read fmt sep bsz inp st0))
     \<and> lines_read (final (read fmt sep bsz inp st1)) = lines_read (final (read fmt sep bsz inp st0))"
proof -
  let ?L = "all_lines inp" and ?e = "eof_name inp"
  define s0 where "s0 = (if total st0 = None
                 then st0\<lparr>total := Some (case n_sentences st0 of
                                            Infinite \<Rightarrow> Finite (int (length ?L))
                                          | Finite k \<Rightarrow> Finite k)\<rparr>
                 else st0)\<lparr>current_file := None\<rparr>"
  have n0: "n_sentences s0 = limit_or_inf n" and t0: "total s0 \<noteq> None"
    and l0: "lines_read s0 = lines_read st0"
    using assms(1) by (auto simp: s0_def Corpus_init_def)
  have r0: "read fmt sep bsz inp st0 = read_loop fmt sep bsz ?e (drop (lines_read st0) ?L) 0 [] [] s0"
    unfolding read_def Let_def s0_def
    by (subst read_loop_skip) (simp split: if_splits)
  have k0: "consumed s0 [] [] = lines_read st0" by (simp add: consumed_def l0)
  note cr = commits_resume[OF assms(2)[unfolded r0] assms(3), unfolded k0]
  then have lt: "lines_read st0 < lines_read c" and ss: "same_setup c s0" by simp_all
  have dr: "drop (lines_read c - lines_read st0) (drop (lines_read st0) ?L) = drop (lines_read c) ?L"
    using lt by simp
  have fin: "final (read fmt sep bsz inp st0) = final (read_loop fmt sep bsz ?e (drop (lines_read c) ?L) 0 [] [] c)"
    and out: "outcome (read fmt sep bsz inp st0) = outcome (read_loop fmt sep bsz ?e (drop (lines_read c) ?L) 0 [] [] c)"
    using cr unfolding r0 dr by simp_all
  have nc: "limit_or_inf n = n_sentences c" using ss n0 by (simp add: same_setup_def)
  have st1: "st1 = c"
    using assms(4) unfolding Corpus_init_def load_cache_def nc by simp
  have tc: "total c \<noteq> None" using ss t0 by (simp add: same_setup_def)
  have r1: "read fmt sep bsz inp st1
      = read_loop fmt sep bsz ?e (drop (lines_read c) ?L) 0 [] [] (c\<lparr>current_file := None\<rparr>)"
    unfolding read_def Let_def st1
    by (subst read_loop_skip) (use tc in auto)
  note cf = read_loop_current_file[where ls = "drop (lines_read c) ?L" and s = c and x = None
      and fmt = fmt and sep = sep and bsz = bsz and eofn = ?e]
  from cf have o: "outcome (read fmt sep bsz inp st1) = outcome (read fmt sep bsz inp st0)"
    unfolding r1 out by simp
  from cf have "(final (read fmt sep bsz inp st1))\<lparr>current_file := None\<rparr>
      = (final (read fmt sep bsz inp st0))\<lparr>current_file := None\<rparr>"
    unfolding r1 fin by simp
  then have "token_stats (final (read fmt sep bsz inp st1)) = token_stats (final (read fmt sep bsz inp st0))
     \<and> pair_stats (final (read fmt sep bsz inp st1)) = pair_stats (final (read fmt sep bsz inp st0))
     \<and> sentences_seen (final (read fmt sep bsz inp st1)) = sentences_seen (final (read fmt sep bsz inp st0))
     \<and> lines_read (final (read fmt sep bsz inp st1)) = lines_read (final (read fmt sep bsz inp st0))"
    by (metis snapshot.select_convs snapshot.surjective snapshot.update_convs(3))
  with o show ?thesis by simp
qed


theorem resume_before_limit_witness:
  "Corpus_init [''f''] None (Some (Finite 2)) fmt4 = Inr two_limit_start
   \<and> map sentences_seen (commits two_limit_run) = [1, 2, 2]
   \<and> \<not> reaches (sentences_seen (hd (commits two_limit_run))) (n_sentences (hd (commits two_limit_run)))
   \<and> token_stats (final two_limit_run)
       = {#(StrV ''red'', StrV ''ADJ''), (StrV ''apple'', StrV ''NOUN'')#}
   \<and> token_stats (final (read fmt4 TAB 1 [(''f'', three_lines)]
                           (new_corpus (Some (hd (commits two_limit_run))) (Some (Finite 2)) fmt4)))
       = token_stats (final two_limit_run)"
proof -
  have h1: "Corpus_init [''f''] None (Some (Finite 2)) fmt4 = Inr two_limit_start"
    by (simp add: two_limit_start_def new_corpus_def Corpus_init_def)
  have seen: "map sentences_seen (commits two_limit_run) = [1, 2, 2]"
    by code_simp
  then have ne: "commits two_limit_run \<noteq> []" by auto
  then have h2: "hd (commits two_limit_run) \<in> set (commits (read fmt4 TAB 1 [(''f'', three_lines)] two_limit_start))"
    by (simp add: two_limit_run_def)
  have h3: "\<not> reaches (sentences_seen (hd (commits two_limit_run))) (n_sentences (hd (commits two_limit_run)))"
    by code_simp
  have h4: "Corpus_init [''f''] (Some (hd (commits two_limit_run))) (Some (Finite 2)) fmt4
      = Inr (new_corpus (Some (hd (commits two_limit_run))) (Some (Finite 2)) fmt4)"
    by (simp add: new_corpus_def Corpus_init_def)
  have t: "token_stats (final two_limit_run)
       = {#(StrV ''red'', StrV ''ADJ''), (StrV ''apple'', StrV ''NOUN'')#}"
    by code_simp
  from resume_before_limit [OF h1 h2 h3 h4] h1 seen h3 t show ?thesis
    by (simp add: two_limit_run_def)
qed

end
